(* ===== verification/Prelude.thy ===== *)
theory Prelude
  imports Main "HOL-Library.Word" "HOL-Library.List_Lexorder" "HOL-Library.Char_ord"
begin

text \<open>
  Shared vocabulary of the development: the machine types of the Go program
  (\<open>int64\<close> as a 64-bit word read with \<open>sint\<close>), the named collection of
  evaluation rules that the component theories extend, and generic lemmas on
  characters, lists and sums that several components use.
\<close>

type_synonym int64 = "64 word"

text \<open>
  Go's \<open>[]byte\<close> and \<open>string\<close> are byte sequences; Isabelle's \<open>char\<close> is a
  byte, so both are \<open>string\<close> here.
\<close>

type_synonym bytes = string

named_theorems wire_simps
  "evaluation rules of the encoders, decoders and formatters of the model"

subsection \<open>Characters as bytes\<close>

lemma of_char_char_of_small [simp]:
  "(n :: nat) < 256 \<Longrightarrow> of_char (char_of n :: char) = n"
  by (simp add: of_char_of)

text \<open>A byte literal computed from its code, for evaluation by \<open>simp\<close>.\<close>

lemmas char_of_eval [wire_simps] = char_of_def bit_0

lemma char_le_iff_of_char: "(c :: char) \<le> d \<longleftrightarrow> of_char c \<le> (of_char d :: nat)"
  by (simp add: less_eq_char_def)

subsection \<open>Sums as error results\<close>

text \<open>
  Go's \<open>(T, error)\<close> results are \<open>error + T\<close>: \<open>Inl\<close> the error, \<open>Inr\<close>
  the value.  A left result is never a right one, whatever the payload.
\<close>

lemma sum_case_Inl_eq [simp]:
  "(case x of Inl e \<Rightarrow> Inl e | Inr v \<Rightarrow> f v) = Inr r \<longleftrightarrow> (\<exists>v. x = Inr v \<and> f v = Inr r)"
  by (cases x) auto

end
