(* ===== verification/Decimal.thy ===== *)
theory Decimal
  imports Prelude
begin

text \<open>
  Decimal conversion of 64-bit integers, as the Go standard library performs it
  for this program: \<open>strconv.ParseInt(s, 10, 64)\<close>, which
  \<open>encoding/json\<close> calls to store a JSON number into an \<open>int64\<close> field
  (\<open>ErrorCode\<close>, \<open>LogId\<close> of \<open>BaseReply\<close>), and the \<open>%d\<close> verb of
  \<open>fmt.Sprintf\<close>, which \<open>PostJson\<close> and \<open>checkErr\<close> use to print the error
  code.  The main result is the round trip: the printed code parses back to
  the same \<open>int64\<close>.
\<close>

subsection \<open>Digits\<close>

definition is_digit :: "char \<Rightarrow> bool" where
  "is_digit c \<longleftrightarrow> CHR ''0'' \<le> c \<and> c \<le> CHR ''9''"

definition digit_value :: "char \<Rightarrow> nat" where
  "digit_value c = of_char c - 48"

definition digit_char :: "nat \<Rightarrow> char" where
  "digit_char d = char_of (48 + d)"

text \<open>The accumulating loop of \<open>strconv.ParseUint\<close>: \<open>n = n*10 + d\<close>.\<close>

fun digits_value :: "nat \<Rightarrow> string \<Rightarrow> nat" where
  "digits_value acc [] = acc"
| "digits_value acc (c # cs) = digits_value (10 * acc + digit_value c) cs"

text \<open>
  \<open>strconv.FormatUint\<close> in base 10 (\<open>formatBits\<close>): the last digit is
  \<open>n mod 10\<close>, the rest is the quotient printed the same way.
\<close>

fun show_nat :: "nat \<Rightarrow> string" where
  "show_nat n = (if n < 10 then [digit_char n] else show_nat (n div 10) @ [digit_char (n mod 10)])"

declare show_nat.simps [simp del]

text \<open>\<open>%d\<close> of a signed value: a minus sign, then the magnitude.\<close>

definition show_int :: "int \<Rightarrow> string" where
  "show_int i = (if i < 0 then CHR ''-'' # show_nat (nat (- i)) else show_nat (nat i))"

definition format_int64 :: "int64 \<Rightarrow> string" where
  "format_int64 w = show_int (sint w)"

subsection \<open>Parsing\<close>

text \<open>
  \<open>strconv.ParseInt(s, 10, 64)\<close>: an optional sign, then at least one decimal
  digit and nothing else (base 10 admits no underscores); the value must lie in
  \<open>[-2^63, 2^63 - 1]\<close>, otherwise it is a range error.  Both errors are
  \<open>None\<close> here: the JSON decoder reports either as the same type error.
\<close>

definition parse_unsigned :: "string \<Rightarrow> nat option" where
  "parse_unsigned s = (if s \<noteq> [] \<and> list_all is_digit s then Some (digits_value 0 s) else None)"

definition parse_int :: "string \<Rightarrow> int option" where
  "parse_int s =
     (case s of
        [] \<Rightarrow> None
      | c # cs \<Rightarrow>
          if c = CHR ''-'' then map_option (\<lambda>n. - int n) (parse_unsigned cs)
          else if c = CHR ''+'' then map_option int (parse_unsigned cs)
          else map_option int (parse_unsigned s))"

definition int64_range :: "int \<Rightarrow> bool" where
  "int64_range i \<longleftrightarrow> - (2 ^ 63) \<le> i \<and> i < 2 ^ 63"

definition parse_int64 :: "string \<Rightarrow> int64 option" where
  "parse_int64 s =
     (case parse_int s of
        None \<Rightarrow> None
      | Some i \<Rightarrow> if int64_range i then Some (word_of_int i) else None)"

lemmas decimal_defs [wire_simps] =
  is_digit_def digit_value_def digit_char_def show_int_def format_int64_def
  parse_unsigned_def parse_int_def int64_range_def parse_int64_def

subsection \<open>Round trip of printing and parsing\<close>

text \<open>
  The digit loop read over a concatenation, the digits that \<open>show_nat\<close>
  prints, and their value: the facts from which the round trip follows.
\<close>

lemma digits_value_append:
  "digits_value acc (xs @ ys) = digits_value (digits_value acc xs) ys"
  by (induction xs arbitrary: acc) auto

lemma digit_char_digit [simp]:
  assumes "d < 10"
  shows "is_digit (digit_char d)" and "digit_value (digit_char d) = d"
  using assms by (simp_all add: is_digit_def digit_char_def digit_value_def char_le_iff_of_char)

lemma show_nat_digits: "list_all is_digit (show_nat n)"
proof (induction n rule: show_nat.induct)
  case (1 n)
  then show ?case by (subst show_nat.simps) simp
qed

lemma show_nat_value: "digits_value 0 (show_nat n) = n"
proof (induction n rule: show_nat.induct)
  case (1 n)
  show ?case
  proof (cases "n < 10")
    case True
    then show ?thesis by (subst show_nat.simps) simp
  next
    case False
    with "1.IH" have "digits_value 0 (show_nat (n div 10)) = n div 10" by simp
    with False show ?thesis by (subst show_nat.simps) (simp add: digits_value_append)
  qed
qed

lemma show_nat_Cons: "\<exists>c cs. show_nat n = c # cs \<and> is_digit c"
proof (induction n rule: show_nat.induct)
  case (1 n)
  then show ?case by (subst show_nat.simps) (auto simp: Cons_eq_append_conv)
qed

lemma parse_unsigned_show_nat [simp]: "parse_unsigned (show_nat n) = Some n"
  using show_nat_Cons [of n] by (auto simp: parse_unsigned_def show_nat_digits show_nat_value)

lemma sign_not_digit [simp]: "\<not> is_digit CHR ''-''" "\<not> is_digit CHR ''+''"
  by (simp_all add: is_digit_def)

lemma parse_int_show_int: "parse_int (show_int i) = Some i"
proof -
  obtain c cs where sn: "show_nat (nat \<bar>i\<bar>) = c # cs" and "is_digit c"
    using show_nat_Cons by blast
  then have "c \<noteq> CHR ''-''" "c \<noteq> CHR ''+''" by auto
  moreover have "parse_unsigned (c # cs) = Some (nat \<bar>i\<bar>)"
    using parse_unsigned_show_nat [of "nat \<bar>i\<bar>"] sn by simp
  ultimately show ?thesis
    using sn by (cases "i < 0") (auto simp: show_int_def parse_int_def)
qed

lemma int64_range_sint [simp]: "int64_range (sint (w :: int64))"
  using sint_ge [of w] sint_lt [of w] by (simp add: int64_range_def)

lemma parse_format_int64: "parse_int64 (format_int64 w) = Some w"
  by (simp add: parse_int64_def format_int64_def parse_int_show_int)

lemma show_nat_set_digit: "c \<in> set (show_nat n) \<Longrightarrow> is_digit c"
  using show_nat_digits [of n] by (simp add: list_all_iff)

lemma colon_not_in_format_int64: "CHR '':'' \<notin> set (format_int64 w)"
proof -
  have "\<not> is_digit CHR '':''" by (simp add: is_digit_def)
  then show ?thesis
    by (auto simp: format_int64_def show_int_def dest: show_nat_set_digit)
qed

end
