(* ===== verification/Json.thy ===== *)
theory Json
  imports Decimal
begin

text \<open>
  The JSON syntax that \<open>json.Unmarshal\<close> accepts, as Go's \<open>encoding/json\<close>
  implements it: the scanner that validates the whole input first
  (\<open>checkValid\<close>, a byte-at-a-time state machine with a stack of open
  arrays and objects, at most 10000 deep), and the string decoding
  (\<open>unquote\<close>) of keys and string values.  The model is a lexer state
  machine over the bytes, then a stack machine over the tokens that builds the
  value; both are structurally recursive, so they terminate on every input.
  Numbers are kept as their literal text, as \<open>json.Number\<close> keeps them: the
  decoder of \<open>Decode\<close> converts them to the field's type.
\<close>

datatype json =
    JNull
  | JBool bool
  | JNum string
  | JStr string
  | JArr "json list"
  | JObj "(string \<times> json) list"

datatype token =
    T_LBrace | T_RBrace | T_LBrack | T_RBrack | T_Colon | T_Comma
  | T_Str string  \<comment> \<open>the raw bytes between the quotes, escapes not yet decoded\<close>
  | T_Num string
  | T_True | T_False | T_Null

subsection \<open>Decoding string contents\<close>

definition is_hex :: "char \<Rightarrow> bool" where
  "is_hex c \<longleftrightarrow> is_digit c \<or> (CHR ''a'' \<le> c \<and> c \<le> CHR ''f'') \<or> (CHR ''A'' \<le> c \<and> c \<le> CHR ''F'')"

definition hex_value :: "char \<Rightarrow> nat" where
  "hex_value c =
     (if is_digit c then of_char c - 48
      else if CHR ''a'' \<le> c \<and> c \<le> CHR ''f'' then of_char c - 87
      else of_char c - 55)"

text \<open>
  \<open>getu4\<close>: the code unit of a \<open>\u\<close> escape at the head of the input, if
  there is one (six bytes: backslash, \<open>u\<close>, four hex digits).
\<close>

fun getu4 :: "string \<Rightarrow> nat option" where
  "getu4 (b # u # h1 # h2 # h3 # h4 # _) =
     (if b = CHR 0x5C \<and> u = CHR ''u'' \<and> list_all is_hex [h1, h2, h3, h4]
      then Some (((hex_value h1 * 16 + hex_value h2) * 16 + hex_value h3) * 16 + hex_value h4)
      else None)"
| "getu4 _ = None"

definition is_surrogate :: "nat \<Rightarrow> bool" where
  "is_surrogate r \<longleftrightarrow> 55296 \<le> r \<and> r < 57344"

text \<open>\<open>utf16.DecodeRune\<close>: a high and a low surrogate make one code point.\<close>

definition decode_pair :: "nat \<Rightarrow> nat \<Rightarrow> nat option" where
  "decode_pair r1 r2 =
     (if 55296 \<le> r1 \<and> r1 < 56320 \<and> 56320 \<le> r2 \<and> r2 < 57344
      then Some ((r1 - 55296) * 1024 + (r2 - 56320) + 65536) else None)"

text \<open>\<open>utf8.EncodeRune\<close>; invalid code points become U+FFFD.\<close>

definition replacement_char :: string where
  "replacement_char = [CHR 0xEF, CHR 0xBF, CHR 0xBD]"

definition utf8_encode :: "nat \<Rightarrow> string" where
  "utf8_encode r =
     (if r < 128 then [char_of r]
      else if r < 2048 then [char_of (192 + r div 64), char_of (128 + r mod 64)]
      else if 1114111 < r \<or> is_surrogate r then replacement_char
      else if r < 65536 then
        [char_of (224 + r div 4096), char_of (128 + r div 64 mod 64), char_of (128 + r mod 64)]
      else [char_of (240 + r div 262144), char_of (128 + r div 4096 mod 64),
            char_of (128 + r div 64 mod 64), char_of (128 + r mod 64)])"

text \<open>
  \<open>utf8.DecodeRune\<close>'s acceptance table: the length of the well-formed UTF-8
  sequence at the head of the input, or 0 where it is not well formed (then Go
  decodes \<open>RuneError\<close> and advances one byte).
\<close>

definition byte_in :: "char \<Rightarrow> nat \<Rightarrow> nat \<Rightarrow> bool" where
  "byte_in c lo hi \<longleftrightarrow> lo \<le> of_char c \<and> of_char c \<le> hi"

fun utf8_rune_len :: "string \<Rightarrow> nat" where
  "utf8_rune_len [] = 0"
| "utf8_rune_len (x # rest) =
     (let b = of_char x :: nat in
      if b < 128 then 1
      else if b < 194 then 0
      else if b \<le> 223 then
        (case rest of c1 # _ \<Rightarrow> if byte_in c1 128 191 then 2 else 0 | _ \<Rightarrow> 0)
      else if b \<le> 239 then
        (case rest of
           c1 # c2 # _ \<Rightarrow>
             if byte_in c1 (if b = 224 then 160 else 128) (if b = 237 then 159 else 191)
                \<and> byte_in c2 128 191 then 3 else 0
         | _ \<Rightarrow> 0)
      else if b \<le> 244 then
        (case rest of
           c1 # c2 # c3 # _ \<Rightarrow>
             if byte_in c1 (if b = 240 then 144 else 128) (if b = 244 then 143 else 191)
                \<and> byte_in c2 128 191 \<and> byte_in c3 128 191 then 4 else 0
         | _ \<Rightarrow> 0)
      else 0)"

text \<open>The one-character escapes of \<open>unquoteBytes\<close>.\<close>

definition simple_escape :: "char \<Rightarrow> char option" where
  "simple_escape e =
     (if e = CHR 0x22 \<or> e = CHR 0x5C \<or> e = CHR ''/'' \<or> e = CHR 0x27 then Some e
      else if e = CHR ''b'' then Some (CHR 0x08)
      else if e = CHR ''f'' then Some (CHR 0x0C)
      else if e = CHR ''n'' then Some (CHR 0x0A)
      else if e = CHR ''r'' then Some (CHR 0x0D)
      else if e = CHR ''t'' then Some (CHR 0x09)
      else None)"

text \<open>
  \<open>unquoteBytes\<close> on the bytes between the quotes: escapes decoded,
  surrogate pairs combined and lone surrogates replaced, ill-formed UTF-8
  replaced byte by byte, \<open>None\<close> where Go reports \<open>ok = false\<close>.
\<close>

fun unquote :: "string \<Rightarrow> string option" where
  "unquote [] = Some []"
| "unquote (c # cs) =
     (if c = CHR 0x5C then
        (case cs of
           [] \<Rightarrow> None
         | e # rest \<Rightarrow>
             if e = CHR ''u'' then
               (case getu4 (c # cs) of
                  None \<Rightarrow> None
                | Some r \<Rightarrow>
                    if is_surrogate r then
                      (case getu4 (drop 5 cs) of
                         Some r2 \<Rightarrow>
                           (case decode_pair r r2 of
                              Some d \<Rightarrow> map_option (\<lambda>t. utf8_encode d @ t) (unquote (drop 11 cs))
                            | None \<Rightarrow> map_option (\<lambda>t. replacement_char @ t) (unquote (drop 5 cs)))
                       | None \<Rightarrow> map_option (\<lambda>t. replacement_char @ t) (unquote (drop 5 cs)))
                    else map_option (\<lambda>t. utf8_encode r @ t) (unquote (drop 5 cs)))
             else
               (case simple_escape e of
                  None \<Rightarrow> None
                | Some b \<Rightarrow> map_option (Cons b) (unquote rest)))
      else if c = CHR 0x22 \<or> of_char c < (32 :: nat) then None
      else if of_char c < (128 :: nat) then map_option (Cons c) (unquote cs)
      else
        (let k = utf8_rune_len (c # cs) in
         if k = 0 then map_option (\<lambda>t. replacement_char @ t) (unquote cs)
         else map_option (\<lambda>t. take k (c # cs) @ t) (unquote (drop (k - 1) cs))))"


subsection \<open>The scanner: bytes to tokens\<close>

text \<open>
  The states of Go's scanner inside a number literal
  (\<open>stateNeg\<close>, \<open>state0\<close>, \<open>state1\<close>, \<open>stateDot\<close>, \<open>stateDot0\<close>,
  \<open>stateE\<close>, \<open>stateESign\<close>, \<open>stateE0\<close>) and the lexer modes: between
  tokens, inside a string, after a backslash, inside a \<open>\u\<close> escape with
  the number of hex digits read, inside a literal with the bytes still
  expected, inside a number.  Accumulated bytes are kept reversed.
\<close>

datatype num_state = N_Minus | N_Zero | N_Int | N_Dot | N_Frac | N_E | N_ESign | N_Exp

datatype lex_mode =
    L_Top
  | L_Str string
  | L_Esc string
  | L_Hex string nat
  | L_Lit string token
  | L_Num string num_state

definition is_ws :: "char \<Rightarrow> bool" where
  "is_ws c \<longleftrightarrow> c = CHR '' '' \<or> c = CHR 0x09 \<or> c = CHR 0x0A \<or> c = CHR 0x0D"

definition is_exp_mark :: "char \<Rightarrow> bool" where
  "is_exp_mark c \<longleftrightarrow> c = CHR ''e'' \<or> c = CHR ''E''"

definition num_start :: "char \<Rightarrow> num_state option" where
  "num_start c =
     (if c = CHR ''-'' then Some N_Minus
      else if c = CHR ''0'' then Some N_Zero
      else if is_digit c then Some N_Int
      else None)"

fun num_next :: "num_state \<Rightarrow> char \<Rightarrow> num_state option" where
  "num_next N_Minus c =
     (if c = CHR ''0'' then Some N_Zero else if is_digit c then Some N_Int else None)"
| "num_next N_Zero c =
     (if c = CHR ''.'' then Some N_Dot else if is_exp_mark c then Some N_E else None)"
| "num_next N_Int c =
     (if is_digit c then Some N_Int else if c = CHR ''.'' then Some N_Dot
      else if is_exp_mark c then Some N_E else None)"
| "num_next N_Dot c = (if is_digit c then Some N_Frac else None)"
| "num_next N_Frac c =
     (if is_digit c then Some N_Frac else if is_exp_mark c then Some N_E else None)"
| "num_next N_E c =
     (if c = CHR ''+'' \<or> c = CHR ''-'' then Some N_ESign
      else if is_digit c then Some N_Exp else None)"
| "num_next N_ESign c = (if is_digit c then Some N_Exp else None)"
| "num_next N_Exp c = (if is_digit c then Some N_Exp else None)"

text \<open>The states in which a number may end (\<open>stateEndValue\<close> reachable).\<close>

fun num_final :: "num_state \<Rightarrow> bool" where
  "num_final N_Zero = True"
| "num_final N_Int = True"
| "num_final N_Frac = True"
| "num_final N_Exp = True"
| "num_final _ = False"

text \<open>\<open>stateBeginValue\<close> and the punctuation of the container states.\<close>

definition top_step :: "char \<Rightarrow> token list \<Rightarrow> (lex_mode \<times> token list) option" where
  "top_step c ts =
     (if is_ws c then Some (L_Top, ts)
      else if c = CHR ''{'' then Some (L_Top, T_LBrace # ts)
      else if c = CHR ''}'' then Some (L_Top, T_RBrace # ts)
      else if c = CHR ''['' then Some (L_Top, T_LBrack # ts)
      else if c = CHR '']'' then Some (L_Top, T_RBrack # ts)
      else if c = CHR '':'' then Some (L_Top, T_Colon # ts)
      else if c = CHR '','' then Some (L_Top, T_Comma # ts)
      else if c = CHR 0x22 then Some (L_Str [], ts)
      else if c = CHR ''t'' then Some (L_Lit ''rue'' T_True, ts)
      else if c = CHR ''f'' then Some (L_Lit ''alse'' T_False, ts)
      else if c = CHR ''n'' then Some (L_Lit ''ull'' T_Null, ts)
      else case num_start c of
             Some st \<Rightarrow> Some (L_Num [c] st, ts)
           | None \<Rightarrow> None)"

fun lex_step :: "lex_mode \<Rightarrow> token list \<Rightarrow> char \<Rightarrow> (lex_mode \<times> token list) option" where
  "lex_step L_Top ts c = top_step c ts"
| "lex_step (L_Str acc) ts c =
     (if c = CHR 0x22 then Some (L_Top, T_Str (rev acc) # ts)
      else if c = CHR 0x5C then Some (L_Esc (c # acc), ts)
      else if of_char c < (32 :: nat) then None
      else Some (L_Str (c # acc), ts))"
| "lex_step (L_Esc acc) ts c =
     (if c = CHR ''u'' then Some (L_Hex (c # acc) 0, ts)
      else if simple_escape c \<noteq> None \<and> c \<noteq> CHR 0x27 then Some (L_Str (c # acc), ts)
      else None)"
| "lex_step (L_Hex acc n) ts c =
     (if \<not> is_hex c then None
      else if n = 3 then Some (L_Str (c # acc), ts)
      else Some (L_Hex (c # acc) (Suc n), ts))"
| "lex_step (L_Lit [] tk) ts c = None"
| "lex_step (L_Lit (x # xs) tk) ts c =
     (if c \<noteq> x then None
      else if xs = [] then Some (L_Top, tk # ts)
      else Some (L_Lit xs tk, ts))"
| "lex_step (L_Num acc st) ts c =
     (case num_next st c of
        Some st' \<Rightarrow> Some (L_Num (c # acc) st', ts)
      | None \<Rightarrow> if num_final st then top_step c (T_Num (rev acc) # ts) else None)"

text \<open>End of input: only a complete number may still be open (\<open>scan.eof\<close>).\<close>

fun lex_end :: "lex_mode \<Rightarrow> token list \<Rightarrow> token list option" where
  "lex_end L_Top ts = Some (rev ts)"
| "lex_end (L_Num acc st) ts = (if num_final st then Some (rev (T_Num (rev acc) # ts)) else None)"
| "lex_end _ ts = None"

fun lex_run :: "lex_mode \<Rightarrow> token list \<Rightarrow> string \<Rightarrow> token list option" where
  "lex_run m ts [] = lex_end m ts"
| "lex_run m ts (c # cs) =
     (case lex_step m ts c of
        None \<Rightarrow> None
      | Some (m', ts') \<Rightarrow> lex_run m' ts' cs)"

definition lex :: "bytes \<Rightarrow> token list option" where
  "lex s = lex_run L_Top [] s"

subsection \<open>The parser: tokens to a value\<close>

text \<open>
  The scanner's \<open>parseState\<close> stack holds one frame per open array or
  object; here a frame also holds what has been read so far (reversed), and an
  object frame that has read a key waits for its value.  Go refuses a
  document nested deeper than \<open>maxNestingDepth\<close> = 10000.
\<close>

datatype frame =
    F_Arr "json list"
  | F_Obj "(string \<times> json) list"
  | F_Key "(string \<times> json) list" string

datatype pmode =
    P_Value | P_Value_Or_Close | P_Key | P_Key_Or_Close | P_Colon | P_Comma_Or_Close
  | P_Done json

definition max_depth :: nat where
  "max_depth = 10000"

fun push_value :: "json \<Rightarrow> frame list \<Rightarrow> (pmode \<times> frame list) option" where
  "push_value v [] = Some (P_Done v, [])"
| "push_value v (F_Arr es # st) = Some (P_Comma_Or_Close, F_Arr (v # es) # st)"
| "push_value v (F_Key ms k # st) = Some (P_Comma_Or_Close, F_Obj ((k, v) # ms) # st)"
| "push_value v (F_Obj ms # st) = None"

definition open_frame :: "frame \<Rightarrow> pmode \<Rightarrow> frame list \<Rightarrow> (pmode \<times> frame list) option" where
  "open_frame f m st = (if length st < max_depth then Some (m, f # st) else None)"

fun close_arr :: "frame list \<Rightarrow> (pmode \<times> frame list) option" where
  "close_arr (F_Arr es # st) = push_value (JArr (rev es)) st"
| "close_arr _ = None"

fun close_obj :: "frame list \<Rightarrow> (pmode \<times> frame list) option" where
  "close_obj (F_Obj ms # st) = push_value (JObj (rev ms)) st"
| "close_obj _ = None"

fun value_step :: "frame list \<Rightarrow> token \<Rightarrow> (pmode \<times> frame list) option" where
  "value_step st T_LBrack = open_frame (F_Arr []) P_Value_Or_Close st"
| "value_step st T_LBrace = open_frame (F_Obj []) P_Key_Or_Close st"
| "value_step st (T_Str raw) = (case unquote raw of None \<Rightarrow> None | Some s \<Rightarrow> push_value (JStr s) st)"
| "value_step st (T_Num n) = push_value (JNum n) st"
| "value_step st T_True = push_value (JBool True) st"
| "value_step st T_False = push_value (JBool False) st"
| "value_step st T_Null = push_value JNull st"
| "value_step st _ = None"

fun key_step :: "frame list \<Rightarrow> token \<Rightarrow> (pmode \<times> frame list) option" where
  "key_step (F_Obj ms # st) (T_Str raw) =
     (case unquote raw of None \<Rightarrow> None | Some k \<Rightarrow> Some (P_Colon, F_Key ms k # st))"
| "key_step _ _ = None"

fun comma_step :: "frame list \<Rightarrow> token \<Rightarrow> (pmode \<times> frame list) option" where
  "comma_step (F_Arr es # st) t =
     (if t = T_Comma then Some (P_Value, F_Arr es # st)
      else if t = T_RBrack then close_arr (F_Arr es # st) else None)"
| "comma_step (F_Obj ms # st) t =
     (if t = T_Comma then Some (P_Key, F_Obj ms # st)
      else if t = T_RBrace then close_obj (F_Obj ms # st) else None)"
| "comma_step _ t = None"

fun parse_step :: "pmode \<Rightarrow> frame list \<Rightarrow> token \<Rightarrow> (pmode \<times> frame list) option" where
  "parse_step (P_Done v) st t = None"
| "parse_step P_Colon st t = (if t = T_Colon then Some (P_Value, st) else None)"
| "parse_step P_Key st t = key_step st t"
| "parse_step P_Key_Or_Close st t = (if t = T_RBrace then close_obj st else key_step st t)"
| "parse_step P_Value st t = value_step st t"
| "parse_step P_Value_Or_Close st t = (if t = T_RBrack then close_arr st else value_step st t)"
| "parse_step P_Comma_Or_Close st t = comma_step st t"

fun parse_run :: "pmode \<Rightarrow> frame list \<Rightarrow> token list \<Rightarrow> json option" where
  "parse_run (P_Done v) st [] = Some v"
| "parse_run m st [] = None"
| "parse_run m st (t # ts) =
     (case parse_step m st t of
        None \<Rightarrow> None
      | Some (m', st') \<Rightarrow> parse_run m' st' ts)"

text \<open>
  The whole syntax check and value construction of \<open>json.Unmarshal\<close>:
  \<open>None\<close> is Go's \<open>SyntaxError\<close> (including the empty input and the
  exceeded nesting depth).
\<close>

definition parse_json :: "bytes \<Rightarrow> json option" where
  "parse_json s = (case lex s of None \<Rightarrow> None | Some ts \<Rightarrow> parse_run P_Value [] ts)"

lemmas json_defs [wire_simps] =
  is_hex_def hex_value_def is_surrogate_def decode_pair_def replacement_char_def
  utf8_encode_def byte_in_def simple_escape_def is_ws_def is_exp_mark_def num_start_def
  top_step_def lex_def max_depth_def open_frame_def parse_json_def

end
