(* ===== verification/Decode.thy ===== *)
theory Decode
  imports Json
begin

text \<open>
  Decoding a JSON value into the reply structures of src/body/body.go, as
  \<open>json.Unmarshal(body, res)\<close> does for \<open>res *Reply\<close>.  \<open>BaseReply\<close> is a
  record; \<open>Reply\<close> embeds it, which is a record extension here, so that the
  promoted fields \<open>res.ErrorCode\<close> are \<open>error_code res\<close> as in Go, and
  \<open>res.BaseReply\<close> is \<open>base_reply.truncate res\<close>.  The embedded
  \<open>Interface\<close> (an \<open>interface{}\<close>) is not a struct, so Go does not promote
  anything through it: it is one field named \<open>Interface\<close> that holds nil or
  a generically decoded value.
\<close>

record base_reply =
  error_code :: int64
  log_id :: int64
  error_msg :: string

record reply = base_reply +
  iface :: "json option"

text \<open>
  The errors of \<open>json.Unmarshal\<close>: a \<open>SyntaxError\<close> from the scanner, or an
  \<open>UnmarshalTypeError\<close> with its \<open>Value\<close> description (\<open>"number 1.5"\<close>,
  \<open>"string"\<close>, \<open>"object"\<close>, ...).
\<close>

datatype decode_error = Syntax_Error | Type_Error string

datatype reply_field = Fld_ErrorCode | Fld_LogId | Fld_ErrorMsg | Fld_Interface

text \<open>
  \<open>cachedTypeFields(Reply)\<close>: the JSON names of the fields, the promoted
  ones of \<open>BaseReply\<close> from their tags.
\<close>

definition reply_fields :: "(string \<times> reply_field) list" where
  "reply_fields =
     [(''error_code'', Fld_ErrorCode), (''log_id'', Fld_LogId),
      (''error_msg'', Fld_ErrorMsg), (''Interface'', Fld_Interface)]"

text \<open>\<open>foldName\<close> on ASCII: letters compared without case.\<close>

definition fold_byte :: "char \<Rightarrow> char" where
  "fold_byte c = (if CHR ''a'' \<le> c \<and> c \<le> CHR ''z'' then char_of (of_char c - (32 :: nat)) else c)"

definition fold_name :: "string \<Rightarrow> string" where
  "fold_name k = map fold_byte k"

text \<open>\<open>d.object\<close>: a key selects a field by exact name first, then by folded name.\<close>

definition lookup_field :: "string \<Rightarrow> reply_field option" where
  "lookup_field k =
     (case map_of reply_fields k of
        Some f \<Rightarrow> Some f
      | None \<Rightarrow> map_of (map (\<lambda>(n, f). (fold_name n, f)) reply_fields) (fold_name k))"

text \<open>
  \<open>literalStore\<close>, \<open>d.array\<close> and \<open>d.object\<close> on a field of kind
  \<open>int64\<close>, \<open>string\<close> and empty interface: \<open>null\<close> leaves the field as it
  is; a value of the wrong kind is an \<open>UnmarshalTypeError\<close> and the field
  is left as it is; a number is stored through \<open>strconv.ParseInt\<close>.
\<close>

definition kind_error :: "json \<Rightarrow> decode_error" where
  "kind_error v =
     (case v of
        JBool _ \<Rightarrow> Type_Error ''bool''
      | JStr _ \<Rightarrow> Type_Error ''string''
      | JNum _ \<Rightarrow> Type_Error ''number''
      | JArr _ \<Rightarrow> Type_Error ''array''
      | _ \<Rightarrow> Type_Error ''object'')"

definition store_int64 :: "json \<Rightarrow> int64 \<Rightarrow> decode_error option \<times> int64" where
  "store_int64 v old =
     (case v of
        JNull \<Rightarrow> (None, old)
      | JNum s \<Rightarrow>
          (case parse_int64 s of
             Some n \<Rightarrow> (None, n)
           | None \<Rightarrow> (Some (Type_Error (''number '' @ s)), old))
      | _ \<Rightarrow> (Some (kind_error v), old))"

definition store_string :: "json \<Rightarrow> string \<Rightarrow> decode_error option \<times> string" where
  "store_string v old =
     (case v of
        JNull \<Rightarrow> (None, old)
      | JStr s \<Rightarrow> (None, s)
      | _ \<Rightarrow> (Some (kind_error v), old))"

definition store_iface :: "json \<Rightarrow> json option \<Rightarrow> decode_error option \<times> json option" where
  "store_iface v old = (case v of JNull \<Rightarrow> (None, None) | _ \<Rightarrow> (None, Some v))"

text \<open>\<open>d.saveError\<close> keeps the first error and decoding goes on.\<close>

definition first_error :: "decode_error option \<Rightarrow> decode_error option \<Rightarrow> decode_error option" where
  "first_error e1 e2 = (case e1 of None \<Rightarrow> e2 | Some _ \<Rightarrow> e1)"

definition decode_member :: "reply \<Rightarrow> string \<times> json \<Rightarrow> decode_error option \<times> reply" where
  "decode_member r m =
     (case lookup_field (fst m) of
        None \<Rightarrow> (None, r)
      | Some Fld_ErrorCode \<Rightarrow>
          (let (e, n) = store_int64 (snd m) (error_code r) in (e, r\<lparr>error_code := n\<rparr>))
      | Some Fld_LogId \<Rightarrow>
          (let (e, n) = store_int64 (snd m) (log_id r) in (e, r\<lparr>log_id := n\<rparr>))
      | Some Fld_ErrorMsg \<Rightarrow>
          (let (e, s) = store_string (snd m) (error_msg r) in (e, r\<lparr>error_msg := s\<rparr>))
      | Some Fld_Interface \<Rightarrow>
          (let (e, i) = store_iface (snd m) (iface r) in (e, r\<lparr>iface := i\<rparr>)))"

fun decode_members ::
  "decode_error option \<Rightarrow> reply \<Rightarrow> (string \<times> json) list \<Rightarrow> decode_error option \<times> reply" where
  "decode_members err r [] = (err, r)"
| "decode_members err r (m # ms) =
     (let (e, r') = decode_member r m in decode_members (first_error err e) r' ms)"

text \<open>The top-level value into the struct \<open>Reply\<close>.\<close>

definition decode_reply :: "json \<Rightarrow> reply \<Rightarrow> decode_error option \<times> reply" where
  "decode_reply v r =
     (case v of
        JObj ms \<Rightarrow> decode_members None r ms
      | JNull \<Rightarrow> (None, r)
      | _ \<Rightarrow> (Some (kind_error v), r))"

text \<open>
  \<open>json.Unmarshal\<close> for any target type, given the decoder of that type:
  the syntax of the whole input is checked first, and nothing is stored on a
  syntax error.
\<close>

definition unmarshal ::
  "(json \<Rightarrow> 'r \<Rightarrow> decode_error option \<times> 'r) \<Rightarrow> bytes \<Rightarrow> 'r \<Rightarrow> decode_error option \<times> 'r" where
  "unmarshal dec data r = (case parse_json data of None \<Rightarrow> (Some Syntax_Error, r) | Some v \<Rightarrow> dec v r)"

lemmas decode_defs [wire_simps] =
  reply_fields_def fold_byte_def fold_name_def lookup_field_def kind_error_def
  store_int64_def store_string_def store_iface_def first_error_def decode_member_def
  decode_reply_def unmarshal_def

subsection \<open>Members that are not fields\<close>

text \<open>
  A member whose key names no field of \<open>Reply\<close> is skipped: it stores
  nothing and reports no error, wherever it stands in the object.
\<close>

lemma decode_member_unknown [simp]: "lookup_field k = None \<Longrightarrow> decode_member r (k, v) = (None, r)"
  by (simp add: decode_member_def)

lemma first_error_None [simp]: "first_error e None = e"
  by (simp add: first_error_def split: option.splits)

subsection \<open>Fields the response does not mention\<close>

lemma decode_member_error_code_frame:
  "lookup_field k \<noteq> Some Fld_ErrorCode \<Longrightarrow> error_code (snd (decode_member r (k, v))) = error_code r"
  by (auto simp: decode_member_def split: option.splits reply_field.splits prod.splits)

lemma decode_members_error_code_frame:
  "\<forall>m \<in> set ms. lookup_field (fst m) \<noteq> Some Fld_ErrorCode \<Longrightarrow>
   error_code (snd (decode_members e r ms)) = error_code r"
proof (induction ms arbitrary: e r)
  case Nil
  then show ?case by simp
next
  case (Cons m ms)
  obtain k v where m: "m = (k, v)" by (cases m)
  obtain e' r' where d: "decode_member r (k, v) = (e', r')" by (cases "decode_member r (k, v)")
  from Cons.prems m have "lookup_field k \<noteq> Some Fld_ErrorCode" by simp
  then have "error_code r' = error_code r"
    using decode_member_error_code_frame [of k r v] d by simp
  with Cons m d show ?case by simp
qed

subsection \<open>The error code as a JSON number\<close>

lemma lookup_field_error_code [simp]: "lookup_field ''error_code'' = Some Fld_ErrorCode"
  by (simp add: lookup_field_def reply_fields_def)

text \<open>
  C9: A response whose error_code member is the decimal text of an int64 c decodes, without error, to a reply whose error_code is c, all else unchanged.
\<close>

theorem decode_error_code_format:
  "decode_reply (JObj [(''error_code'', JNum (format_int64 c))]) r = (None, r\<lparr>error_code := c\<rparr>)"
  by (simp add: decode_reply_def decode_member_def store_int64_def parse_format_int64 first_error_def)

text \<open>
  C10: An error_code outside the int64 range [-2^63, 2^63-1] is an UnmarshalTypeError "number <literal>" and leaves the reply unchanged.
\<close>

theorem decode_error_code_out_of_range:
  assumes "\<not> int64_range i"
  shows "decode_reply (JObj [(''error_code'', JNum (show_int i))]) r =
    (Some (Type_Error (''number '' @ show_int i)), r)"
  using assms
  by (simp add: decode_reply_def decode_member_def store_int64_def parse_int64_def parse_int_show_int
                first_error_def)

subsection \<open>Keys compared without case\<close>

text \<open>
  The four field names stay distinct after folding, so the exact-name pass of
  \<open>d.object\<close> finds nothing the folded pass would not find: a key selects
  a field exactly when its folded form is that field's folded name.
\<close>

lemma lookup_field_folded:
  "lookup_field k = map_of (map (\<lambda>(n, f). (fold_name n, f)) reply_fields) (fold_name k)"
proof (cases "map_of reply_fields k")
  case None
  then show ?thesis by (simp add: lookup_field_def)
next
  case (Some f)
  then have "k \<in> {''error_code'', ''log_id'', ''error_msg'', ''Interface''}"
    by (auto simp: reply_fields_def split: if_splits)
  then show ?thesis
    by (auto simp: lookup_field_def reply_fields_def fold_name_def fold_byte_def char_of_eval)
qed

text \<open>
  C19: A member of the response sets a field of Reply exactly when its key,
  with ASCII letters compared without case, is one of the tags of BaseReply
  (error_code, log_id, error_msg) or Interface, the name of the embedded
  interface; every other key, such as the endpoint payload's result, sets
  nothing.
\<close>

theorem lookup_field_keys:
  "lookup_field k =
     (if fold_name k = ''ERROR_CODE'' then Some Fld_ErrorCode
      else if fold_name k = ''LOG_ID'' then Some Fld_LogId
      else if fold_name k = ''ERROR_MSG'' then Some Fld_ErrorMsg
      else if fold_name k = ''INTERFACE'' then Some Fld_Interface
      else None)"
  by (simp add: lookup_field_folded reply_fields_def fold_name_def fold_byte_def char_of_eval)

end
