(* ===== verification/Form.thy ===== *)
theory Form
  imports Prelude
begin

text \<open>
  Go's \<open>url.Values\<close> (a \<open>map[string][]string\<close>) as \<open>PostForm\<close> uses it:
  \<open>v.Add(key, value)\<close> and the \<open>application/x-www-form-urlencoded\<close> body
  that \<open>http.PostForm\<close> sends, \<open>v.Encode()\<close>.  \<open>Encode\<close> visits the keys
  in sorted order, so the map is represented by an association list kept
  sorted by key without duplicates; \<open>map_of\<close> is its abstraction to the Go
  map, and \<open>values_add\<close> refines the map update of \<open>Add\<close>.  The
  reading side, \<open>url.ParseQuery\<close> as a server decodes the form, is here
  too, with the round trip: the encoded values parse back to themselves.
\<close>

type_synonym url_values = "(string \<times> string list) list"

definition values_wf :: "url_values \<Rightarrow> bool" where
  "values_wf vs \<longleftrightarrow> sorted_wrt (<) (map fst vs)"

text \<open>\<open>v[key] = append(v[key], value)\<close>, inserted at its place in key order.\<close>

fun values_add :: "string \<Rightarrow> string \<Rightarrow> url_values \<Rightarrow> url_values" where
  "values_add k x [] = [(k, [x])]"
| "values_add k x ((k', xs) # vs) =
     (if k = k' then (k', xs @ [x]) # vs
      else if k < k' then (k, [x]) # (k', xs) # vs
      else (k', xs) # values_add k x vs)"

text \<open>
  \<open>url.QueryEscape\<close> (mode \<open>encodeQueryComponent\<close>): letters, digits and
  \<open>-_.~\<close> are kept, a space becomes \<open>+\<close>, every other byte \<open>%XX\<close> with
  upper-case hex digits.
\<close>

definition unreserved :: "char \<Rightarrow> bool" where
  "unreserved c \<longleftrightarrow>
     (CHR ''a'' \<le> c \<and> c \<le> CHR ''z'') \<or> (CHR ''A'' \<le> c \<and> c \<le> CHR ''Z'')
     \<or> (CHR ''0'' \<le> c \<and> c \<le> CHR ''9'')
     \<or> c = CHR ''-'' \<or> c = CHR ''_'' \<or> c = CHR ''.'' \<or> c = CHR ''~''"

definition upper_hex :: "nat \<Rightarrow> char" where
  "upper_hex d = ''0123456789ABCDEF'' ! d"

definition escape_byte :: "char \<Rightarrow> string" where
  "escape_byte c =
     (if unreserved c then [c]
      else if c = CHR '' '' then ''+''
      else [CHR ''%'', upper_hex (of_char c div 16), upper_hex (of_char c mod 16)])"

definition query_escape :: "string \<Rightarrow> string" where
  "query_escape s = concat (map escape_byte s)"

text \<open>\<open>Values.Encode\<close>: one \<open>key=value\<close> pair per value, joined by \<open>&\<close>.\<close>

fun write_pairs :: "string \<Rightarrow> string list \<Rightarrow> string" where
  "write_pairs buf [] = buf"
| "write_pairs buf (p # ps) = write_pairs ((if buf = [] then buf else buf @ ''&'') @ p) ps"

definition values_encode :: "url_values \<Rightarrow> string" where
  "values_encode vs =
     write_pairs []
       (concat (map (\<lambda>(k, xs). map (\<lambda>x. query_escape k @ ''='' @ query_escape x) xs) vs))"

text \<open>
  The reading side, as the server (or Go's own \<open>url.ParseQuery\<close>) decodes
  the body: \<open>ishex\<close>, \<open>unhex\<close> and \<open>unescape\<close> in mode
  \<open>encodeQueryComponent\<close>: \<open>%XX\<close> with two hex digits is the byte
  \<open>XX\<close>, a \<open>%\<close> without two hex digits after it is an \<open>EscapeError\<close>
  naming at most three bytes from the \<open>%\<close>, \<open>+\<close> is a space, every
  other byte stands for itself.
\<close>

definition url_ishex :: "char \<Rightarrow> bool" where
  "url_ishex c \<longleftrightarrow>
     (CHR ''0'' \<le> c \<and> c \<le> CHR ''9'') \<or> (CHR ''a'' \<le> c \<and> c \<le> CHR ''f'') \<or> (CHR ''A'' \<le> c \<and> c \<le> CHR ''F'')"

definition url_unhex :: "char \<Rightarrow> nat" where
  "url_unhex c =
     (if CHR ''0'' \<le> c \<and> c \<le> CHR ''9'' then of_char c - 48
      else if CHR ''a'' \<le> c \<and> c \<le> CHR ''f'' then of_char c - 87
      else if CHR ''A'' \<le> c \<and> c \<le> CHR ''F'' then of_char c - 55
      else 0)"

fun query_unescape :: "string \<Rightarrow> string + string" where
  "query_unescape [] = Inr []"
| "query_unescape (c # cs) =
     (if c = CHR ''%'' then
        (case cs of
           h1 # h2 # rest \<Rightarrow>
             if url_ishex h1 \<and> url_ishex h2
             then map_sum id ((#) (char_of (url_unhex h1 * 16 + url_unhex h2))) (query_unescape rest)
             else Inl (take 3 (c # cs))
         | _ \<Rightarrow> Inl (take 3 (c # cs)))
      else map_sum id ((#) (if c = CHR ''+'' then CHR '' '' else c)) (query_unescape cs))"

text \<open>
  \<open>strings.Cut\<close>: the text before the first separator and the text after it
  (all of it and nothing when there is none).
\<close>

fun cut_at :: "char \<Rightarrow> string \<Rightarrow> string \<times> string" where
  "cut_at c [] = ([], [])"
| "cut_at c (x # xs) = (if x = c then ([], xs) else (case cut_at c xs of (a, b) \<Rightarrow> (x # a, b)))"

datatype query_error = Semicolon_Separator | Escape_Error string

text \<open>
  The body of the loop of \<open>parseQuery\<close> for one \<open>&\<close>-separated part: a
  part with a semicolon sets the error; an empty part is skipped; otherwise
  the part is cut at its first \<open>=\<close>, both halves are unescaped, and the
  value is added under the key, the first unescaping error being kept and the
  part skipped.
\<close>

definition parse_part :: "query_error option \<times> url_values \<Rightarrow> string \<Rightarrow> query_error option \<times> url_values" where
  "parse_part st part =
     (case st of (err, m) \<Rightarrow>
        if CHR '';'' \<in> set part then (Some Semicolon_Separator, m)
        else if part = [] then (err, m)
        else (case cut_at CHR ''='' part of (k, x) \<Rightarrow>
          case query_unescape k of
            Inl e \<Rightarrow> (if err = None then Some (Escape_Error e) else err, m)
          | Inr k' \<Rightarrow>
              (case query_unescape x of
                 Inl e \<Rightarrow> (if err = None then Some (Escape_Error e) else err, m)
               | Inr x' \<Rightarrow> (err, values_add k' x' m))))"

text \<open>
  \<open>parseQuery\<close> cuts the query at each \<open>&\<close> in turn until nothing is
  left: the parts it visits are those of the split at every \<open>&\<close>, except
  for a last empty one, which the loop skips anyway.
\<close>

fun split_at :: "char \<Rightarrow> string \<Rightarrow> string list" where
  "split_at c [] = [[]]"
| "split_at c (x # xs) =
     (if x = c then [] # split_at c xs else (case split_at c xs of p # ps \<Rightarrow> (x # p) # ps | [] \<Rightarrow> [[x]]))"

definition parse_query :: "string \<Rightarrow> query_error option \<times> url_values" where
  "parse_query q = foldl parse_part (None, []) (split_at CHR ''&'' q)"

lemmas form_defs [wire_simps] = unreserved_def upper_hex_def escape_byte_def query_escape_def
  values_encode_def url_ishex_def url_unhex_def parse_part_def parse_query_def

subsection \<open>\<open>Add\<close> keeps the representation and refines the map update\<close>


lemma keys_values_add: "fst ` set (values_add k x vs) = insert k (fst ` set vs)"
  by (induction k x vs rule: values_add.induct) auto

lemma values_add_wf: "values_wf vs \<Longrightarrow> values_wf (values_add k x vs)"
proof (induction k x vs rule: values_add.induct)
  case (1 k x)
  then show ?case by (simp add: values_wf_def)
next
  case (2 k x k' xs vs)
  then show ?case
    by (auto simp: values_wf_def keys_values_add)
qed

lemma map_of_values_add:
  "values_wf vs \<Longrightarrow>
   map_of (values_add k x vs) = (map_of vs)(k \<mapsto> (case map_of vs k of None \<Rightarrow> [x] | Some xs \<Rightarrow> xs @ [x]))"
proof (induction k x vs rule: values_add.induct)
  case (1 k x)
  then show ?case by simp
next
  case (2 k x k' xs vs)
  then have wf: "values_wf vs" and gt: "\<forall>k'' \<in> fst ` set vs. k' < k''"
    by (auto simp: values_wf_def)
  show ?case
  proof (cases "k = k'")
    case True
    then show ?thesis by (auto simp: fun_eq_iff)
  next
    case False
    show ?thesis
    proof (cases "k < k'")
      case True
      with gt have "map_of vs k = None"
        by (auto simp: map_of_eq_None_iff)
      with True False show ?thesis by (auto simp: fun_eq_iff)
    next
      case False
      with \<open>k \<noteq> k'\<close> "2.IH" wf show ?thesis by (auto simp: fun_eq_iff)
    qed
  qed
qed

lemma values_add_nonempty:
  "list_all (\<lambda>(k, xs). xs \<noteq> []) vs \<Longrightarrow> list_all (\<lambda>(k, xs). xs \<noteq> []) (values_add k x vs)"
  by (induction k x vs rule: values_add.induct) auto

subsection \<open>Reading back what \<open>Encode\<close> wrote\<close>

text \<open>
  Escaping keeps letters, digits and \<open>-_.~\<close> and writes every other byte
  as \<open>+\<close> or \<open>%\<close> and two upper-case hex digits; unescaping undoes each
  byte, and the separators \<open>&\<close>, \<open>=\<close> and \<open>;\<close> never occur in escaped
  text.  So the parts of the encoded form are the key-value pairs in order,
  and adding them one by one rebuilds the sorted list.
\<close>


lemma upper_hex_all:
  "list_all (\<lambda>d. url_ishex (upper_hex d) \<and> url_unhex (upper_hex d) = d \<and> unreserved (upper_hex d)) [0..<16]"
  by (simp add: upt_rec upper_hex_def url_ishex_def url_unhex_def unreserved_def)

lemma upper_hex_digit:
  assumes "d < 16"
  shows "url_ishex (upper_hex d) \<and> url_unhex (upper_hex d) = d \<and> unreserved (upper_hex d)"
  using upper_hex_all assms by (simp add: list_all_iff)

lemma unreserved_not_special [simp]:
  "\<not> unreserved CHR ''%''" "\<not> unreserved CHR ''+''" "\<not> unreserved CHR ''&''"
  "\<not> unreserved CHR ''=''" "\<not> unreserved CHR '';''" "\<not> unreserved CHR '' ''"
  by (simp_all add: unreserved_def char_le_iff_of_char)

lemma of_char_hex_digits: "of_char c div 16 < (16::nat)" "of_char c mod 16 < (16::nat)"
proof -
  have "of_char c < (16 * 16 :: nat)" using nat_of_char_less_256 [of c] by simp
  then show "of_char c div 16 < (16::nat)" by (rule less_mult_imp_div_less)
qed simp

lemma query_unescape_escape_byte:
  "query_unescape (escape_byte c @ rest) = map_sum id ((#) c) (query_unescape rest)"
proof -
  consider "unreserved c" | "\<not> unreserved c" "c = CHR '' ''" | "\<not> unreserved c" "c \<noteq> CHR '' ''"
    by blast
  then show ?thesis
  proof cases
    case 1
    then have "c \<noteq> CHR ''%''" "c \<noteq> CHR ''+''" by auto
    with 1 show ?thesis by (simp add: escape_byte_def)
  next
    case 2
    then show ?thesis by (simp add: escape_byte_def)
  next
    case 3
    note lt = of_char_hex_digits [of c]
    have "char_of (of_char c div 16 * 16 + of_char c mod 16 :: nat) = c"
      by (metis div_mult_mod_eq char_of_char)
    with 3 upper_hex_digit [OF lt(1)] upper_hex_digit [OF lt(2)] show ?thesis
      by (simp add: escape_byte_def)
  qed
qed

lemma query_unescape_escape: "query_unescape (query_escape s) = Inr s"
  by (induction s) (simp_all add: query_escape_def query_unescape_escape_byte)

lemma escape_byte_chars: "x \<in> set (escape_byte c) \<Longrightarrow> x = CHR ''%'' \<or> x = CHR ''+'' \<or> unreserved x"
proof -
  note lt = of_char_hex_digits [of c]
  assume "x \<in> set (escape_byte c)"
  with upper_hex_digit [OF lt(1)] upper_hex_digit [OF lt(2)] show ?thesis
    by (auto simp: escape_byte_def split: if_splits)
qed

lemma query_escape_no_separator:
  "CHR ''&'' \<notin> set (query_escape s)" "CHR ''='' \<notin> set (query_escape s)" "CHR '';'' \<notin> set (query_escape s)"
  by (auto simp: query_escape_def dest: escape_byte_chars)


lemma write_pairs_nonempty:
  "buf \<noteq> [] \<Longrightarrow> write_pairs buf ps = buf @ concat (map (\<lambda>p. CHR ''&'' # p) ps)"
  by (induction ps arbitrary: buf) auto

lemma split_at_no_sep: "c \<notin> set a \<Longrightarrow> split_at c a = [a]"
  by (induction a) auto

lemma split_at_sep: "c \<notin> set a \<Longrightarrow> split_at c (a @ c # b) = a # split_at c b"
  by (induction a) (auto split: list.splits)

lemma split_at_join:
  assumes "c \<notin> set p" and "\<forall>q \<in> set ps. c \<notin> set q"
  shows "split_at c (p @ concat (map (\<lambda>q. c # q) ps)) = p # ps"
  using assms
proof (induction ps arbitrary: p)
  case Nil
  then show ?case by (simp add: split_at_no_sep)
next
  case (Cons q ps)
  then show ?case by (simp add: split_at_sep)
qed

lemma cut_at_sep: "c \<notin> set a \<Longrightarrow> cut_at c (a @ c # b) = (a, b)"
  by (induction a) auto

lemma parse_part_pair:
  "parse_part (None, m) (query_escape k @ CHR ''='' # query_escape x) = (None, values_add k x m)"
  using query_escape_no_separator [of k] query_escape_no_separator [of x]
  by (simp add: parse_part_def cut_at_sep query_unescape_escape)

lemma foldl_parse_part:
  "foldl parse_part (None, m) (map (\<lambda>(k, x). query_escape k @ CHR ''='' # query_escape x) kxs)
     = (None, foldl (\<lambda>m (k, x). values_add k x m) m kxs)"
  by (induction kxs arbitrary: m) (auto simp: parse_part_pair)

lemma values_add_last:
  "\<forall>k' \<in> fst ` set m. k' < k \<Longrightarrow> values_add k x m = m @ [(k, [x])]"
  by (induction k x m rule: values_add.induct) auto

lemma values_add_last_same:
  "\<forall>k' \<in> fst ` set m. k' < k \<Longrightarrow> values_add k x (m @ [(k, ys)]) = m @ [(k, ys @ [x])]"
  by (induction m) auto

lemma foldl_values_add_key:
  assumes "\<forall>k' \<in> fst ` set m. k' < k"
  shows "foldl (\<lambda>m (k, x). values_add k x m) (m @ [(k, ys)]) (map (\<lambda>x. (k, x)) xs) = m @ [(k, ys @ xs)]"
  by (induction xs arbitrary: ys) (simp_all add: values_add_last_same [OF assms])

lemma foldl_values_add_all:
  assumes "values_wf (m @ vs)" and "list_all (\<lambda>(k, xs). xs \<noteq> []) vs"
  shows "foldl (\<lambda>m (k, x). values_add k x m) m (concat (map (\<lambda>(k, xs). map (\<lambda>x. (k, x)) xs) vs)) = m @ vs"
  using assms
proof (induction vs arbitrary: m)
  case Nil
  then show ?case by simp
next
  case (Cons kx vs)
  obtain k xs where kx: "kx = (k, xs)" by (cases kx)
  from Cons.prems kx obtain x xs' where xs: "xs = x # xs'" by (cases xs) auto
  have lt: "\<forall>k' \<in> fst ` set m. k' < k"
    using Cons.prems(1) kx by (auto simp: values_wf_def sorted_wrt_append)
  have "foldl (\<lambda>m (k, x). values_add k x m) m (map (\<lambda>x. (k, x)) xs) = m @ [(k, xs)]"
    using foldl_values_add_key [OF lt, of "[x]" xs'] values_add_last [OF lt, of x] xs by simp
  moreover have "foldl (\<lambda>m (k, x). values_add k x m) (m @ [(k, xs)])
      (concat (map (\<lambda>(k, xs). map (\<lambda>x. (k, x)) xs) vs)) = (m @ [(k, xs)]) @ vs"
    using Cons.IH [of "m @ [(k, xs)]"] Cons.prems kx by simp
  ultimately show ?case using kx by simp
qed

lemma parse_query_values_encode:
  assumes "values_wf vs" and "list_all (\<lambda>(k, xs). xs \<noteq> []) vs"
  shows "parse_query (values_encode vs) = (None, vs)"
proof -
  define kxs where "kxs = concat (map (\<lambda>(k, xs). map (\<lambda>x. (k, x)) xs) vs)"
  define enc where "enc = (\<lambda>(k, x). query_escape k @ ''='' @ query_escape x)"
  have ve: "values_encode vs = write_pairs [] (map enc kxs)"
    by (simp add: values_encode_def kxs_def enc_def map_concat comp_def split_def)
  have sep: "\<forall>p \<in> set (map enc kxs). CHR ''&'' \<notin> set p"
    using query_escape_no_separator by (auto simp: enc_def)
  show ?thesis
  proof (cases kxs)
    case Nil
    with assms(2) have "vs = []" by (cases vs) (auto simp: kxs_def)
    then show ?thesis by (simp add: values_encode_def parse_query_def parse_part_def)
  next
    case (Cons kx rest)
    have "enc kx \<noteq> []" by (auto simp: enc_def split: prod.splits)
    with Cons sep have "split_at CHR ''&'' (values_encode vs) = map enc kxs"
      using split_at_join [of "CHR ''&''" "enc kx" "map enc rest"]
      by (simp add: ve write_pairs_nonempty comp_def)
    then have "parse_query (values_encode vs) = (None, foldl (\<lambda>m (k, x). values_add k x m) [] kxs)"
      by (simp add: parse_query_def enc_def foldl_parse_part)
    also have "\<dots> = (None, vs)"
      using foldl_values_add_all [of "[]" vs] assms by (simp add: kxs_def)
    finally show ?thesis .
  qed
qed

end
