(* ===== verification/Net.thy ===== *)
theory Net
  imports Prelude
begin

text \<open>
  The environment of the client: the HTTP requests it makes, what the servers
  answer, and the token storage backend.  A world records every request sent,
  in order; a server's answer may depend on everything sent before.  This is
  the part of Go's \<open>net/http\<close> the program observes: \<open>http.Post\<close> and
  \<open>http.PostForm\<close> either fail in transport or give a response whose body
  \<open>ioutil.ReadAll\<close> then reads or fails to read.  A non-2xx status is not an
  error in Go, so the status is not modelled: the body is decoded whatever it
  is.
\<close>

datatype request =
    Token_Request string string  \<comment> \<open>the token manager's exchange of key and secret\<close>
  | Json_Request string bytes  \<comment> \<open>\<open>http.Post(url, "application/json", body)\<close>\<close>
  | Form_Request string bytes  \<comment> \<open>\<open>http.PostForm(url, values)\<close>, the encoded form\<close>

datatype http_outcome = Transport_Failure | Read_Failure | Http_Body bytes

record world =
  clock :: int
  stored :: "(string \<times> int) option"  \<comment> \<open>the storage backend: token and expiry\<close>
  auth :: "request list \<Rightarrow> string + string \<times> int"  \<comment> \<open>token endpoint: error, or token and lifetime\<close>
  server :: "request list \<Rightarrow> request \<Rightarrow> http_outcome"
  sent :: "request list"

text \<open>One HTTP exchange: the request is logged, the server answers it.\<close>

definition http_send :: "request \<Rightarrow> world \<Rightarrow> http_outcome \<times> world" where
  "http_send req w = (server w (sent w) req, w\<lparr>sent := sent w @ [req]\<rparr>)"

text \<open>How many of the requests of a log are token requests.\<close>

fun is_token_request :: "request \<Rightarrow> bool" where
  "is_token_request (Token_Request _ _) = True"
| "is_token_request _ = False"

definition token_requests :: "request list \<Rightarrow> nat" where
  "token_requests rs = length (filter is_token_request rs)"

lemma http_send_sent [simp]: "sent (snd (http_send req w)) = sent w @ [req]"
  by (simp add: http_send_def)

lemma http_send_outcome [simp]: "fst (http_send req w) = server w (sent w) req"
  by (simp add: http_send_def)

lemma token_requests_append [simp]:
  "token_requests (xs @ ys) = token_requests xs + token_requests ys"
  by (simp add: token_requests_def)

lemma token_requests_single [simp]:
  "token_requests [Token_Request k s] = 1" "token_requests [Json_Request u v] = 0"
  "token_requests [Form_Request u v] = 0"
  by (simp_all add: token_requests_def)

end
