(* ===== verification/Token.thy ===== *)
theory Token
  imports Net
begin

text \<open>
  The token manager \<open>lib.AccessToken\<close> of the package
  github.com/comeonjy/go-baiduai/lib, which src/body/body.go calls but which
  is not among the sources: it is modelled from the specification.  It holds
  the application's key and secret and the current bearer token with its
  expiry.  \<open>SetAccessToken\<close> keeps a token that is present and not expired;
  otherwise it takes a valid token from the storage backend, and otherwise it
  asks the token endpoint (one request) and saves the answer to storage.
\<close>

record access_token =
  app_key :: string
  app_secret :: string
  token :: string
  expires_at :: int

definition new_token :: "string \<Rightarrow> string \<Rightarrow> access_token" where
  "new_token key secret = \<lparr>app_key = key, app_secret = secret, token = [], expires_at = 0\<rparr>"

definition token_valid :: "int \<Rightarrow> string \<Rightarrow> int \<Rightarrow> bool" where
  "token_valid now t exp \<longleftrightarrow> t \<noteq> [] \<and> now < exp"

definition fetch_token :: "access_token \<Rightarrow> world \<Rightarrow> (string + unit) \<times> access_token \<times> world" where
  "fetch_token tk w =
     (let req = Token_Request (app_key tk) (app_secret tk);
          w' = w\<lparr>sent := sent w @ [req]\<rparr>
      in case auth w (sent w) of
           Inl msg \<Rightarrow> (Inl msg, tk, w')
         | Inr (t, ttl) \<Rightarrow>
             (Inr (), tk\<lparr>token := t, expires_at := clock w + ttl\<rparr>,
              w'\<lparr>stored := Some (t, clock w + ttl)\<rparr>))"

definition set_access_token :: "access_token \<Rightarrow> world \<Rightarrow> (string + unit) \<times> access_token \<times> world" where
  "set_access_token tk w =
     (if token_valid (clock w) (token tk) (expires_at tk) then (Inr (), tk, w)
      else case stored w of
             Some (t, exp) \<Rightarrow>
               if token_valid (clock w) t exp
               then (Inr (), tk\<lparr>token := t, expires_at := exp\<rparr>, w)
               else fetch_token tk w
           | None \<Rightarrow> fetch_token tk w)"

text \<open>The storage backend holds a token that is still valid.\<close>

definition stored_valid :: "world \<Rightarrow> bool" where
  "stored_valid w = (case stored w of None \<Rightarrow> False | Some (t, e) \<Rightarrow> token_valid (clock w) t e)"

text \<open>
  A token endpoint is sound when every token it hands out is non-empty and has
  a positive lifetime.
\<close>

definition auth_sound :: "world \<Rightarrow> bool" where
  "auth_sound w \<longleftrightarrow> (\<forall>h t ttl. auth w h = Inr (t, ttl) \<longrightarrow> t \<noteq> [] \<and> 0 < ttl)"

subsection \<open>What one call of \<open>SetAccessToken\<close> does\<close>

text \<open>
  A call keeps the token, adopts the stored one, or fetches a new one; only
  the last sends a request.  Clock, servers and credentials are untouched.
\<close>

lemma fetch_token_frame:
  assumes "fetch_token tk w = (r, tk', w')"
  shows "clock w' = clock w" "server w' = server w" "auth w' = auth w"
    "app_key tk' = app_key tk" "app_secret tk' = app_secret tk"
    "sent w' = sent w @ [Token_Request (app_key tk) (app_secret tk)]"
  using assms by (auto simp: fetch_token_def Let_def split: sum.splits prod.splits)

lemma fetch_token_Inr:
  assumes "fetch_token tk w = (Inr x, tk', w')"
  shows "\<exists>ttl. auth w (sent w) = Inr (token tk', ttl) \<and> stored w' = Some (token tk', expires_at tk')"
  using assms by (auto simp: fetch_token_def Let_def split: sum.splits prod.splits)

lemma fetch_token_Inl:
  assumes "fetch_token tk w = (Inl m, tk', w')"
  shows "stored w' = stored w"
  using assms by (auto simp: fetch_token_def Let_def split: sum.splits prod.splits)

lemma set_access_token_cached:
  "token_valid (clock w) (token tk) (expires_at tk) \<Longrightarrow> set_access_token tk w = (Inr (), tk, w)"
  by (simp add: set_access_token_def)

lemma set_access_token_cases:
  "(token_valid (clock w) (token tk) (expires_at tk) \<and> set_access_token tk w = (Inr (), tk, w))
   \<or> (\<exists>t exp. token_valid (clock w) t exp
        \<and> set_access_token tk w = (Inr (), tk\<lparr>token := t, expires_at := exp\<rparr>, w))
   \<or> set_access_token tk w = fetch_token tk w"
  by (auto simp: set_access_token_def split: option.splits)

lemma set_access_token_frame:
  assumes "set_access_token tk w = (r, tk', w')"
  shows "clock w' = clock w \<and> server w' = server w \<and> auth w' = auth w
    \<and> app_key tk' = app_key tk \<and> app_secret tk' = app_secret tk"
  using set_access_token_cases [where tk = tk and w = w]
proof (elim disjE exE conjE)
  assume "set_access_token tk w = fetch_token tk w"
  with assms have "fetch_token tk w = (r, tk', w')" by simp
  from fetch_token_frame [OF this] show ?thesis by simp
qed (use assms in auto)

lemma set_access_token_sent:
  assumes "set_access_token tk w = (r, tk', w')"
  shows "(sent w' = sent w \<and> r = Inr ())
     \<or> sent w' = sent w @ [Token_Request (app_key tk) (app_secret tk)]"
  using set_access_token_cases [where tk = tk and w = w]
proof (elim disjE exE conjE)
  assume "set_access_token tk w = fetch_token tk w"
  with assms have "fetch_token tk w = (r, tk', w')" by simp
  from fetch_token_frame [OF this] show ?thesis by simp
qed (use assms in auto)


lemma fetch_token_valid:
  assumes "fetch_token tk w = (Inr u, tk', w')" and "auth_sound w"
  shows "token_valid (clock w') (token tk') (expires_at tk')"
  using assms by (auto simp: fetch_token_def auth_sound_def token_valid_def Let_def
                       split: sum.splits prod.splits)

lemma set_access_token_valid:
  assumes "set_access_token tk w = (Inr u, tk', w')" and "auth_sound w"
  shows "token_valid (clock w') (token tk') (expires_at tk')"
  using set_access_token_cases [where tk = tk and w = w]
proof (elim disjE exE conjE)
  assume "set_access_token tk w = fetch_token tk w"
  with assms(1) have "fetch_token tk w = (Inr u, tk', w')" by simp
  from fetch_token_valid [OF this assms(2)] show ?thesis .
qed (use assms in auto)

text \<open>
  Exactly when a call of \<open>SetAccessToken\<close> sends a token request: when
  neither the held token nor the stored one is valid.
\<close>

lemma set_access_token_sent_iff:
  assumes "set_access_token tk w = (r, tk', w')"
  shows "sent w' = (if token_valid (clock w) (token tk) (expires_at tk) \<or> stored_valid w then sent w
                    else sent w @ [Token_Request (app_key tk) (app_secret tk)])"
proof (cases "token_valid (clock w) (token tk) (expires_at tk) \<or> stored_valid w")
  case True
  with assms show ?thesis
    by (auto simp: set_access_token_def stored_valid_def split: option.splits if_splits)
next
  case False
  then have "set_access_token tk w = fetch_token tk w"
    by (auto simp: set_access_token_def stored_valid_def split: option.splits)
  with assms fetch_token_frame(6) [of tk w r tk' w'] False show ?thesis by simp
qed

end
