(* ===== verification/Body.thy ===== *)
theory Body
  imports Decode Form Token
begin

text \<open>
  The request dispatcher of src/body/body.go.  A \<open>Body\<close> holds the pointer
  to the token manager; a call threads the token state, the caller's out
  parameter \<open>res\<close> (and, for \<open>PostForm\<close>, the caller's \<open>url.Values\<close>,
  which \<open>v.Add\<close> mutates in place) and the world of requests, and returns
  Go's \<open>error\<close> as a sum: \<open>Inl\<close> the error, \<open>Inr ()\<close> for \<open>nil\<close>.
  \<open>errors.WithStack\<close> only attaches a stack trace, so the model keeps the
  kind of the wrapped error.
\<close>

record body =
  tok :: access_token

datatype error =
    Token_Error string  \<comment> \<open>\<open>SetAccessToken\<close> failed\<close>
  | Transport_Error  \<comment> \<open>\<open>http.Post\<close> / \<open>http.PostForm\<close> failed\<close>
  | Read_Error  \<comment> \<open>\<open>ioutil.ReadAll\<close> failed\<close>
  | Decode_Error decode_error  \<comment> \<open>\<open>json.Unmarshal\<close> failed\<close>
  | Api_Error string  \<comment> \<open>\<open>errors.New(fmt.Sprintf("%d:%s", code, msg))\<close>\<close>

definition new :: "string \<Rightarrow> string \<Rightarrow> body" where
  "new key secret = \<lparr>tok = new_token key secret\<rparr>"

text \<open>\<open>fmt.Sprintf("%d:%s", r.ErrorCode, r.ErrorMsg)\<close>, for any record that
  embeds \<open>BaseReply\<close>.\<close>

definition sprintf_code_msg :: "'a base_reply_scheme \<Rightarrow> string" where
  "sprintf_code_msg r = format_int64 (error_code r) @ '':'' @ error_msg r"

text \<open>The URL of a JSON call: \<open>url+"?access_token="+b.Token.AccessToken\<close>.\<close>

definition json_url :: "string \<Rightarrow> access_token \<Rightarrow> string" where
  "json_url url tk = url @ ''?access_token='' @ token tk"

definition post_json ::
  "body \<Rightarrow> string \<Rightarrow> bytes \<Rightarrow> reply \<Rightarrow> world \<Rightarrow> (error + unit) \<times> body \<times> reply \<times> world" where
  "post_json b url v res w =
     (case set_access_token (tok b) w of
        (Inl e, tk1, w1) \<Rightarrow> (Inl (Token_Error e), b\<lparr>tok := tk1\<rparr>, res, w1)
      | (Inr _, tk1, w1) \<Rightarrow>
          (case http_send (Json_Request (json_url url tk1) v) w1 of
             (Transport_Failure, w2) \<Rightarrow> (Inl Transport_Error, b\<lparr>tok := tk1\<rparr>, res, w2)
           | (Read_Failure, w2) \<Rightarrow> (Inl Read_Error, b\<lparr>tok := tk1\<rparr>, res, w2)
           | (Http_Body data, w2) \<Rightarrow>
               (case unmarshal decode_reply data res of
                  (Some de, res') \<Rightarrow> (Inl (Decode_Error de), b\<lparr>tok := tk1\<rparr>, res', w2)
                | (None, res') \<Rightarrow>
                    if error_code res' \<noteq> 0
                    then (Inl (Api_Error (sprintf_code_msg res')), b\<lparr>tok := tk1\<rparr>, res', w2)
                    else (Inr (), b\<lparr>tok := tk1\<rparr>, res', w2))))"

text \<open>
  \<open>PostForm\<close> decodes into a target of any type (\<open>res interface{}\<close>), so it
  takes that type's decoder \<open>dec\<close>.  It adds the token to the caller's
  values, which the caller sees afterwards, and it does not look at an error
  code after decoding.
\<close>

definition post_form ::
  "(json \<Rightarrow> 'r \<Rightarrow> decode_error option \<times> 'r) \<Rightarrow> body \<Rightarrow> string \<Rightarrow> url_values \<Rightarrow> 'r \<Rightarrow> world
   \<Rightarrow> (error + unit) \<times> body \<times> url_values \<times> 'r \<times> world" where
  "post_form dec b url v res w =
     (case set_access_token (tok b) w of
        (Inl e, tk1, w1) \<Rightarrow> (Inl (Token_Error e), b\<lparr>tok := tk1\<rparr>, v, res, w1)
      | (Inr _, tk1, w1) \<Rightarrow>
          (let v1 = values_add ''access_token'' (token tk1) v in
           case http_send (Form_Request url (values_encode v1)) w1 of
             (Transport_Failure, w2) \<Rightarrow> (Inl Transport_Error, b\<lparr>tok := tk1\<rparr>, v1, res, w2)
           | (Read_Failure, w2) \<Rightarrow> (Inl Read_Error, b\<lparr>tok := tk1\<rparr>, v1, res, w2)
           | (Http_Body data, w2) \<Rightarrow>
               (case unmarshal dec data res of
                  (Some de, res') \<Rightarrow> (Inl (Decode_Error de), b\<lparr>tok := tk1\<rparr>, v1, res', w2)
                | (None, res') \<Rightarrow> (Inr (), b\<lparr>tok := tk1\<rparr>, v1, res', w2))))"

text \<open>\<open>checkErr(baseReply, err)\<close>: the error given, else the envelope's error.\<close>

definition check_err :: "base_reply \<Rightarrow> error option \<Rightarrow> error option" where
  "check_err br err =
     (case err of
        Some e \<Rightarrow> Some e
      | None \<Rightarrow> if error_code br \<noteq> 0 then Some (Api_Error (sprintf_code_msg br)) else None)"

text \<open>
  Reading an API error back: the code before the first colon, the message
  after it.  This is the inverse the format \<open>"%d:%s"\<close> admits, since a
  printed integer has no colon.
\<close>

definition split_api_error :: "string \<Rightarrow> (int64 \<times> string) option" where
  "split_api_error m =
     (case dropWhile (\<lambda>c. c \<noteq> CHR '':'') m of
        [] \<Rightarrow> None
      | _ # rest \<Rightarrow> map_option (\<lambda>c. (c, rest)) (parse_int64 (takeWhile (\<lambda>c. c \<noteq> CHR '':'') m)))"

subsection \<open>How a call of \<open>PostJson\<close> ends\<close>

text \<open>
  The inversion of \<open>post_json\<close>: every result comes from exactly one path
  through the code; and the forward computation once the token is there and
  the server has answered with a body.  The properties below follow from
  these two lemmas.
\<close>

lemma post_json_cases:
  assumes "post_json b url v res w = (r, b', res', w')"
  shows "b' = b\<lparr>tok := tok b'\<rparr> \<and>
   ((\<exists>e. set_access_token (tok b) w = (Inl e, tok b', w') \<and> r = Inl (Token_Error e) \<and> res' = res)
    \<or> (\<exists>u w1. set_access_token (tok b) w = (Inr u, tok b', w1)
        \<and> w' = w1\<lparr>sent := sent w1 @ [Json_Request (json_url url (tok b')) v]\<rparr>
        \<and> (let out = server w1 (sent w1) (Json_Request (json_url url (tok b')) v) in
             (out = Transport_Failure \<and> r = Inl Transport_Error \<and> res' = res)
           \<or> (out = Read_Failure \<and> r = Inl Read_Error \<and> res' = res)
           \<or> (\<exists>data de. out = Http_Body data \<and> unmarshal decode_reply data res = (Some de, res')
                 \<and> r = Inl (Decode_Error de))
           \<or> (\<exists>data. out = Http_Body data \<and> unmarshal decode_reply data res = (None, res')
                 \<and> r = (if error_code res' \<noteq> 0 then Inl (Api_Error (sprintf_code_msg res')) else Inr ())))))"
  using assms
  by (auto simp: post_json_def http_send_def Let_def
           split: prod.splits sum.splits http_outcome.splits option.splits if_splits)

lemma post_json_on_body:
  assumes "set_access_token (tok b) w = (Inr u, tk1, w1)"
      and "server w1 (sent w1) (Json_Request (json_url url tk1) v) = Http_Body data"
  shows "post_json b url v res w =
     (let w2 = w1\<lparr>sent := sent w1 @ [Json_Request (json_url url tk1) v]\<rparr> in
      case unmarshal decode_reply data res of
        (Some de, res') \<Rightarrow> (Inl (Decode_Error de), b\<lparr>tok := tk1\<rparr>, res', w2)
      | (None, res') \<Rightarrow>
          if error_code res' \<noteq> 0 then (Inl (Api_Error (sprintf_code_msg res')), b\<lparr>tok := tk1\<rparr>, res', w2)
          else (Inr (), b\<lparr>tok := tk1\<rparr>, res', w2))"
  using assms by (simp add: post_json_def http_send_def Let_def)

subsection \<open>Properties of \<open>PostJson\<close>\<close>

text \<open>
  C1: PostJson returns nil exactly when the token is available, the server answers with a body, the body decodes into the reply without error, and the decoded error_code is 0.
\<close>

theorem post_json_success_iff:
  "fst (post_json b url v res w) = Inr () \<longleftrightarrow>
   (\<exists>u tk1 w1 data res'. set_access_token (tok b) w = (Inr u, tk1, w1)
      \<and> server w1 (sent w1) (Json_Request (json_url url tk1) v) = Http_Body data
      \<and> unmarshal decode_reply data res = (None, res') \<and> error_code res' = 0)"
proof
  assume ok: "fst (post_json b url v res w) = Inr ()"
  obtain r b' res' w' where eq: "post_json b url v res w = (r, b', res', w')"
    by (cases "post_json b url v res w") auto
  with ok have "r = Inr ()" by simp
  with post_json_cases [OF eq] show "\<exists>u tk1 w1 data res'. set_access_token (tok b) w = (Inr u, tk1, w1)
      \<and> server w1 (sent w1) (Json_Request (json_url url tk1) v) = Http_Body data
      \<and> unmarshal decode_reply data res = (None, res') \<and> error_code res' = 0"
    by (auto simp: Let_def split: if_splits)
next
  assume "\<exists>u tk1 w1 data res'. set_access_token (tok b) w = (Inr u, tk1, w1)
      \<and> server w1 (sent w1) (Json_Request (json_url url tk1) v) = Http_Body data
      \<and> unmarshal decode_reply data res = (None, res') \<and> error_code res' = 0"
  then show "fst (post_json b url v res w) = Inr ()"
    by (auto simp: post_json_on_body)
qed

text \<open>
  C2: PostJson returns an API error with message m exactly when the token is available, the server answers with a body that decodes without error into a reply whose error_code is non-zero, and m is that code and the reply's error_msg formatted with "%d:%s".
\<close>

theorem post_json_api_error_iff:
  "(\<exists>b' w'. post_json b url v res w = (Inl (Api_Error m), b', res', w')) \<longleftrightarrow>
   (\<exists>u tk1 w1 data. set_access_token (tok b) w = (Inr u, tk1, w1)
      \<and> server w1 (sent w1) (Json_Request (json_url url tk1) v) = Http_Body data
      \<and> unmarshal decode_reply data res = (None, res')
      \<and> error_code res' \<noteq> 0 \<and> m = sprintf_code_msg res')"
proof
  assume "\<exists>b' w'. post_json b url v res w = (Inl (Api_Error m), b', res', w')"
  then obtain b' w' where eq: "post_json b url v res w = (Inl (Api_Error m), b', res', w')" by blast
  from post_json_cases [OF eq] show "\<exists>u tk1 w1 data. set_access_token (tok b) w = (Inr u, tk1, w1)
      \<and> server w1 (sent w1) (Json_Request (json_url url tk1) v) = Http_Body data
      \<and> unmarshal decode_reply data res = (None, res')
      \<and> error_code res' \<noteq> 0 \<and> m = sprintf_code_msg res'"
    by (auto simp: Let_def split: if_splits)
next
  assume "\<exists>u tk1 w1 data. set_access_token (tok b) w = (Inr u, tk1, w1)
      \<and> server w1 (sent w1) (Json_Request (json_url url tk1) v) = Http_Body data
      \<and> unmarshal decode_reply data res = (None, res')
      \<and> error_code res' \<noteq> 0 \<and> m = sprintf_code_msg res'"
  then show "\<exists>b' w'. post_json b url v res w = (Inl (Api_Error m), b', res', w')"
    by (auto simp: post_json_on_body)
qed

text \<open>
  C3: A response body that is not well-formed JSON makes PostJson fail with a decode (syntax) error, leaving the caller's reply untouched.
\<close>

theorem post_json_syntax_error:
  assumes "set_access_token (tok b) w = (Inr u, tk1, w1)"
      and "server w1 (sent w1) (Json_Request (json_url url tk1) v) = Http_Body data"
      and "parse_json data = None"
  shows "post_json b url v res w =
    (Inl (Decode_Error Syntax_Error), b\<lparr>tok := tk1\<rparr>, res,
     w1\<lparr>sent := sent w1 @ [Json_Request (json_url url tk1) v]\<rparr>)"
  using assms by (simp add: post_json_on_body unmarshal_def)

text \<open>
  C4: When the token cannot be obtained, PostJson fails with a token error
  having sent only the token request: no JSON request is posted.  Otherwise it
  sends at most one token request and then exactly one JSON request, whose URL
  is the endpoint followed by ?access_token= and the token the body holds
  afterwards.
\<close>

theorem post_json_requests:
  assumes "post_json b url v res w = (r, b', res', w')"
  shows "case r of
           Inl (Token_Error e) \<Rightarrow>
             sent w' = sent w @ [Token_Request (app_key (tok b)) (app_secret (tok b))]
         | _ \<Rightarrow>
             (\<exists>pre. sent w' = sent w @ pre @ [Json_Request (url @ ''?access_token='' @ token (tok b')) v]
                \<and> pre \<in> {[], [Token_Request (app_key (tok b)) (app_secret (tok b))]})"
proof (cases "\<exists>e. r = Inl (Token_Error e)")
  case True
  then obtain e where r: "r = Inl (Token_Error e)" by blast
  with post_json_cases [OF assms] have "set_access_token (tok b) w = (Inl e, tok b', w')"
    by (auto simp: Let_def split: if_splits)
  from set_access_token_sent [OF this] r show ?thesis by auto
next
  case False
  with post_json_cases [OF assms] obtain u w1 where tk: "set_access_token (tok b) w = (Inr u, tok b', w1)"
    and w': "w' = w1\<lparr>sent := sent w1 @ [Json_Request (json_url url (tok b')) v]\<rparr>"
    by blast
  have "\<exists>pre. sent w' = sent w @ pre @ [Json_Request (url @ ''?access_token='' @ token (tok b')) v]
          \<and> pre \<in> {[], [Token_Request (app_key (tok b)) (app_secret (tok b))]}"
    using set_access_token_sent [OF tk] w' by (auto simp: json_url_def)
  with False show ?thesis by (cases r) (auto split: error.splits)
qed

text \<open>
  A token that is present and not expired is kept, and no token request is
  sent: the only request is the JSON call carrying that token.
\<close>

lemma post_json_cached_token:
  assumes "token_valid (clock w) (token (tok b)) (expires_at (tok b))"
      and "post_json b url v res w = (r, b', res', w')"
  shows "tok b' = tok b \<and> sent w' = sent w @ [Json_Request (json_url url (tok b)) v]"
  using post_json_cases [OF assms(2)] set_access_token_cached [OF assms(1)] by auto

subsection \<open>How a call of \<open>PostForm\<close> ends\<close>

lemma post_form_cases:
  assumes "post_form dec b url v res w = (r, b', v', res', w')"
  shows "b' = b\<lparr>tok := tok b'\<rparr> \<and>
   ((\<exists>e. set_access_token (tok b) w = (Inl e, tok b', w') \<and> r = Inl (Token_Error e) \<and> v' = v \<and> res' = res)
    \<or> (\<exists>u w1. set_access_token (tok b) w = (Inr u, tok b', w1)
        \<and> v' = values_add ''access_token'' (token (tok b')) v
        \<and> w' = w1\<lparr>sent := sent w1 @ [Form_Request url (values_encode v')]\<rparr>
        \<and> (let out = server w1 (sent w1) (Form_Request url (values_encode v')) in
             (out = Transport_Failure \<and> r = Inl Transport_Error \<and> res' = res)
           \<or> (out = Read_Failure \<and> r = Inl Read_Error \<and> res' = res)
           \<or> (\<exists>data de. out = Http_Body data \<and> unmarshal dec data res = (Some de, res')
                 \<and> r = Inl (Decode_Error de))
           \<or> (\<exists>data. out = Http_Body data \<and> unmarshal dec data res = (None, res') \<and> r = Inr ()))))"
  using assms
  by (auto simp: post_form_def http_send_def Let_def
           split: prod.splits sum.splits http_outcome.splits option.splits)

lemma post_form_on_body:
  assumes "set_access_token (tok b) w = (Inr u, tk1, w1)"
      and "server w1 (sent w1)
             (Form_Request url (values_encode (values_add ''access_token'' (token tk1) v))) = Http_Body data"
  shows "post_form dec b url v res w =
     (let v1 = values_add ''access_token'' (token tk1) v;
          w2 = w1\<lparr>sent := sent w1 @ [Form_Request url (values_encode v1)]\<rparr> in
      case unmarshal dec data res of
        (Some de, res') \<Rightarrow> (Inl (Decode_Error de), b\<lparr>tok := tk1\<rparr>, v1, res', w2)
      | (None, res') \<Rightarrow> (Inr (), b\<lparr>tok := tk1\<rparr>, v1, res', w2))"
  using assms by (simp add: post_form_def http_send_def Let_def)

text \<open>
  C7: PostForm returns nil whenever the token is available, the server answers with a body and the body decodes without error, whatever the decoded error_code: unlike PostJson it never reports an API error, even when the target is a Reply whose error_code is non-zero.
\<close>

theorem post_form_ignores_error_code:
  assumes "set_access_token (tok b) w = (Inr u, tk1, w1)"
      and "server w1 (sent w1)
             (Form_Request url (values_encode (values_add ''access_token'' (token tk1) v))) = Http_Body data"
      and "unmarshal decode_reply data res = (None, res')"
  shows "\<exists>b' v' w'. post_form decode_reply b url v res w = (Inr (), b', v', res', w')"
  using post_form_on_body [OF assms(1) assms(2), where dec = decode_reply and res = res] assms(3)
  by (simp add: Let_def)

text \<open>
  C8: Unless the token cannot be obtained, PostForm adds the token to the caller's url.Values under the key access_token, and the request it sends (after at most one token request) is a form POST to the endpoint whose body is those values encoded.
\<close>

theorem post_form_request:
  assumes "post_form dec b url v res w = (r, b', v', res', w')"
      and "\<forall>e. r \<noteq> Inl (Token_Error e)"
  shows "v' = values_add ''access_token'' (token (tok b')) v
    \<and> (\<exists>pre. sent w' = sent w @ pre @ [Form_Request url (values_encode v')]
           \<and> pre \<in> {[], [Token_Request (app_key (tok b)) (app_secret (tok b))]})"
  using post_form_cases [OF assms(1)]
proof (elim conjE disjE exE)
  fix e assume "r = Inl (Token_Error e)"
  with assms(2) show ?thesis by blast
next
  fix u w1
  assume tk: "set_access_token (tok b) w = (Inr u, tok b', w1)"
    and v': "v' = values_add ''access_token'' (token (tok b')) v"
    and w': "w' = w1\<lparr>sent := sent w1 @ [Form_Request url (values_encode v')]\<rparr>"
  from set_access_token_sent [OF tk] v' w' show ?thesis by auto
qed

subsection \<open>What a call leaves for the next one\<close>

text \<open>
  The values a successful \<open>PostForm\<close> hands back to the caller, and the token
  state a \<open>PostJson\<close> call leaves when it got past \<open>SetAccessToken\<close>.
\<close>

lemma post_form_values:
  assumes "post_form dec b url v res w = (r, b', v', res', w')" and "\<forall>e. r \<noteq> Inl (Token_Error e)"
  shows "v' = values_add ''access_token'' (token (tok b')) v"
  using post_form_cases [OF assms(1)] assms(2) by auto

lemma post_json_token_kept:
  assumes "post_json b url v res w = (r, b', res', w')" and "\<forall>e. r \<noteq> Inl (Token_Error e)"
  shows "\<exists>u w1. set_access_token (tok b) w = (Inr u, tok b', w1) \<and> clock w' = clock w1"
  using post_json_cases [OF assms(1)] assms(2) by auto

text \<open>
  C17: A PostJson call sends a token request, as its first request, exactly
  when neither the token it holds nor the stored one is valid at the time of
  the call; otherwise its only request is the JSON request.
\<close>

theorem post_json_token_request_iff:
  assumes "post_json b url v res w = (r, b', res', w')"
  shows "(\<exists>rest. sent w' = sent w @ Token_Request (app_key (tok b)) (app_secret (tok b)) # rest)
     \<longleftrightarrow> \<not> token_valid (clock w) (token (tok b)) (expires_at (tok b)) \<and> \<not> stored_valid w"
proof -
  obtain u w1 where st: "set_access_token (tok b) w = (u, tok b', w1)"
    and sw: "sent w' = sent w1 \<or> sent w' = sent w1 @ [Json_Request (json_url url (tok b')) v]"
    using post_json_cases [OF assms] by (auto simp: Let_def)
  show ?thesis
    using set_access_token_sent_iff [OF st] sw by auto
qed

text \<open>
  C13: Wherever PostJson reaches its envelope check, its verdict is checkErr's
  on the decoded res.BaseReply with a nil error: nil when PostJson returns
  nil, and the same API error when PostJson returns one.  The inline check
  and checkErr are one envelope validation.
\<close>

theorem post_json_check_err:
  assumes "post_json b url v res w = (r, b', res', w')"
  shows "(case r of
            Inr _ \<Rightarrow> check_err (base_reply.truncate res') None = None
          | Inl (Api_Error m) \<Rightarrow> check_err (base_reply.truncate res') None = Some (Api_Error m)
          | Inl _ \<Rightarrow> True)"
  using post_json_cases [OF assms]
  by (auto simp: check_err_def sprintf_code_msg_def base_reply.defs Let_def split: if_splits)

subsection \<open>The error message\<close>

text \<open>
  C6: The API error message "%d:%s" determines the error code and message: splitting it at the first colon and parsing the prefix as an int64 gives back both.
\<close>

theorem split_sprintf_code_msg: "split_api_error (sprintf_code_msg r) = Some (error_code r, error_msg r)"
proof -
  have "\<forall>c \<in> set (format_int64 (error_code r)). c \<noteq> CHR '':''"
    using colon_not_in_format_int64 by blast
  then show ?thesis
    by (simp add: split_api_error_def sprintf_code_msg_def takeWhile_append2 dropWhile_append2
                  parse_format_int64 del: Diff_iff)
qed

end
