(* ===== verification/Concurrency.thy ===== *)
theory Concurrency
  imports Body
begin

text \<open>
  Concurrent \<open>PostJson\<close> calls on one \<open>Body\<close>.  Every goroutine shares the
  pointer \<open>b.Token\<close>, and the specification states that nothing locks the
  refresh: \<open>SetAccessToken\<close> reads the token, decides, and later writes the
  refreshed one, and other calls may run in between.  A state holds the shared
  token, the world, and the program counter of each call; one step is one
  call doing its next atomic action.  The check and the refresh of
  \<open>SetAccessToken\<close> are the three branches of \<open>set_access_token\<close> split
  at the network request, and the URL of line 47 reads the shared token when
  the request is built.
\<close>

datatype call_pc =
    C_Start string bytes  \<comment> \<open>about to call \<open>SetAccessToken\<close>; endpoint and body\<close>
  | C_Fetch string bytes  \<comment> \<open>decided to refresh, token request not yet answered\<close>
  | C_Post string bytes  \<comment> \<open>token obtained, about to build the URL and post\<close>
  | C_Done

record shared =
  sh_tok :: access_token
  sh_world :: world
  calls :: "call_pc list"

definition cur_valid :: "shared \<Rightarrow> bool" where
  "cur_valid s \<longleftrightarrow> token_valid (clock (sh_world s)) (token (sh_tok s)) (expires_at (sh_tok s))"

inductive conc_step :: "shared \<Rightarrow> shared \<Rightarrow> bool" where
  take_cached:
    "i < length (calls s) \<Longrightarrow> calls s ! i = C_Start u v \<Longrightarrow> cur_valid s \<Longrightarrow>
     conc_step s (s\<lparr>calls := (calls s)[i := C_Post u v]\<rparr>)"
| take_stored:
    "i < length (calls s) \<Longrightarrow> calls s ! i = C_Start u v \<Longrightarrow> \<not> cur_valid s \<Longrightarrow>
     stored (sh_world s) = Some (t, e) \<Longrightarrow> token_valid (clock (sh_world s)) t e \<Longrightarrow>
     conc_step s (s\<lparr>sh_tok := (sh_tok s)\<lparr>token := t, expires_at := e\<rparr>, calls := (calls s)[i := C_Post u v]\<rparr>)"
| need_fetch:
    "i < length (calls s) \<Longrightarrow> calls s ! i = C_Start u v \<Longrightarrow> \<not> cur_valid s \<Longrightarrow>
     \<not> stored_valid (sh_world s) \<Longrightarrow>
     conc_step s (s\<lparr>calls := (calls s)[i := C_Fetch u v]\<rparr>)"
| fetched:
    "i < length (calls s) \<Longrightarrow> calls s ! i = C_Fetch u v \<Longrightarrow>
     fetch_token (sh_tok s) (sh_world s) = (Inr x, tk', w') \<Longrightarrow>
     conc_step s (s\<lparr>sh_tok := tk', sh_world := w', calls := (calls s)[i := C_Post u v]\<rparr>)"
| fetch_failed:
    "i < length (calls s) \<Longrightarrow> calls s ! i = C_Fetch u v \<Longrightarrow>
     fetch_token (sh_tok s) (sh_world s) = (Inl m, tk', w') \<Longrightarrow>
     conc_step s (s\<lparr>sh_world := w', calls := (calls s)[i := C_Done]\<rparr>)"
| posted:
    "i < length (calls s) \<Longrightarrow> calls s ! i = C_Post u v \<Longrightarrow>
     conc_step s (s\<lparr>sh_world := snd (http_send (Json_Request (json_url u (sh_tok s)) v) (sh_world s)),
                   calls := (calls s)[i := C_Done]\<rparr>)"

inductive reach :: "shared \<Rightarrow> shared \<Rightarrow> bool" for s0 where
  refl: "reach s0 s0"
| step: "reach s0 s \<Longrightarrow> conc_step s t \<Longrightarrow> reach s0 t"

definition pending :: "call_pc \<Rightarrow> bool" where
  "pending c \<longleftrightarrow> (case c of C_Start _ _ \<Rightarrow> True | C_Fetch _ _ \<Rightarrow> True | _ \<Rightarrow> False)"

definition pending_calls :: "call_pc list \<Rightarrow> nat" where
  "pending_calls cs = length (filter pending cs)"

text \<open>
  The tokens a call may legitimately use, seen from a start state: the one the
  body already holds, the one in storage, and any the authorisation server
  grants.  A URL carries a token of a set when it ends in
  \<open>?access_token=\<close> followed by one of them, as line 47 builds it.
\<close>

definition token_sources :: "shared \<Rightarrow> string set" where
  "token_sources s0 =
     insert (token (sh_tok s0))
       ({t. \<exists>e. stored (sh_world s0) = Some (t, e)} \<union> {t. \<exists>h ttl. auth (sh_world s0) h = Inr (t, ttl)})"

definition carries_token :: "string set \<Rightarrow> string \<Rightarrow> bool" where
  "carries_token S u \<longleftrightarrow> (\<exists>base t. u = base @ ''?access_token='' @ t \<and> t \<in> S)"

definition sources_inv :: "shared \<Rightarrow> shared \<Rightarrow> bool" where
  "sources_inv s0 s \<longleftrightarrow>
     auth (sh_world s) = auth (sh_world s0) \<and> token (sh_tok s) \<in> token_sources s0
     \<and> (\<forall>t e. stored (sh_world s) = Some (t, e) \<longrightarrow> t \<in> token_sources s0)
     \<and> (\<exists>new. sent (sh_world s) = sent (sh_world s0) @ new
          \<and> (\<forall>u v. Json_Request u v \<in> set new \<longrightarrow> carries_token (token_sources s0) u))"

subsection \<open>Invariants of the interleavings\<close>


lemma pending_calls_update:
  "i < length cs \<Longrightarrow>
   pending_calls (cs[i := c]) + (if pending (cs ! i) then 1 else 0)
     = pending_calls cs + (if pending c then 1 else 0)"
proof (induction cs arbitrary: i)
  case Nil
  then show ?case by simp
next
  case (Cons a cs)
  then show ?case by (cases i) (auto simp: pending_calls_def)
qed

lemma pending_simps [simp]:
  "pending (C_Start u v)" "pending (C_Fetch u v)" "\<not> pending (C_Post u v)" "\<not> pending C_Done"
  by (simp_all add: pending_def)

lemma conc_step_token_budget:
  assumes "conc_step s t"
  shows "token_requests (sent (sh_world t)) + pending_calls (calls t)
           \<le> token_requests (sent (sh_world s)) + pending_calls (calls s)"
  using assms
proof cases
  case (take_cached i u v)
  with pending_calls_update [of i "calls s" "C_Post u v"] show ?thesis by simp
next
  case (take_stored i u v t e)
  with pending_calls_update [of i "calls s" "C_Post u v"] show ?thesis by simp
next
  case (need_fetch i u v)
  with pending_calls_update [of i "calls s" "C_Fetch u v"] show ?thesis by simp
next
  case (fetched i u v x tk' w')
  with pending_calls_update [of i "calls s" "C_Post u v"] fetch_token_frame(6) [OF fetched(4)]
  show ?thesis by simp
next
  case (fetch_failed i u v m tk' w')
  with pending_calls_update [of i "calls s" C_Done] fetch_token_frame(6) [OF fetch_failed(4)]
  show ?thesis by simp
next
  case (posted i u v)
  with pending_calls_update [of i "calls s" C_Done] show ?thesis by simp
qed

text \<open>
  C14: In every interleaving of concurrent PostJson calls on one body, the
  token requests sent plus the calls that may still send one never grow: a
  run of n calls sends at most n token requests.
\<close>

theorem reach_token_budget:
  assumes "reach s0 s"
  shows "token_requests (sent (sh_world s)) + pending_calls (calls s)
           \<le> token_requests (sent (sh_world s0)) + pending_calls (calls s0)"
  using assms
proof induction
  case refl
  then show ?case by simp
next
  case (step s t)
  with conc_step_token_budget [OF step.hyps(2)] show ?case by linarith
qed


lemma json_url_carries_token: "token tk \<in> S \<Longrightarrow> carries_token S (json_url u tk)"
  unfolding carries_token_def json_url_def by blast

lemma sources_inv_init: "sources_inv s0 s0"
  by (simp add: sources_inv_def token_sources_def)

lemma conc_step_sources_inv:
  assumes "conc_step s t" and "sources_inv s0 s"
  shows "sources_inv s0 t"
  using assms(1)
proof cases
  case (take_cached i u v)
  with assms(2) show ?thesis by (simp add: sources_inv_def)
next
  case (take_stored i u v tt e)
  with assms(2) show ?thesis by (auto simp: sources_inv_def)
next
  case (need_fetch i u v)
  with assms(2) show ?thesis by (simp add: sources_inv_def)
next
  case (fetched i u v x tk' w')
  note fr = fetch_token_frame [OF fetched(4)]
  from fetch_token_Inr [OF fetched(4)] obtain ttl
    where a: "auth (sh_world s) (sent (sh_world s)) = Inr (token tk', ttl)" and st: "stored w' = Some (token tk', expires_at tk')"
    by blast
  with assms(2) have "token tk' \<in> token_sources s0"
    by (auto simp: sources_inv_def token_sources_def)
  with assms(2) fetched fr st show ?thesis
    by (auto simp: sources_inv_def)
next
  case (fetch_failed i u v m tk' w')
  note fr = fetch_token_frame [OF fetch_failed(4)]
  with assms(2) fetch_failed fetch_token_Inl [OF fetch_failed(4)] show ?thesis
    by (auto simp: sources_inv_def)
next
  case (posted i u v)
  from assms(2) obtain new where sn: "sent (sh_world s) = sent (sh_world s0) @ new"
    and nw: "\<forall>u v. Json_Request u v \<in> set new \<longrightarrow> carries_token (token_sources s0) u"
    by (auto simp: sources_inv_def)
  let ?new = "new @ [Json_Request (json_url u (sh_tok s)) v]"
  have "token (sh_tok s) \<in> token_sources s0" using assms(2) by (simp add: sources_inv_def)
  with nw have "\<forall>u' v'. Json_Request u' v' \<in> set ?new \<longrightarrow> carries_token (token_sources s0) u'"
    by (auto intro: json_url_carries_token)
  moreover have "sent (sh_world t) = sent (sh_world s0) @ ?new" using posted sn by simp
  ultimately show ?thesis using assms(2) posted unfolding sources_inv_def by (auto simp: http_send_def)
qed

lemma reach_sources_inv: "reach s0 s \<Longrightarrow> sources_inv s0 s"
proof (induction rule: reach.induct)
  case refl
  then show ?case by (rule sources_inv_init)
next
  case (step s t)
  then show ?case by (blast intro: conc_step_sources_inv)
qed

text \<open>
  C15: In every interleaving, each JSON request sent after the start carries,
  after \<open>?access_token=\<close>, a token the body held at the start, the one
  in storage at the start, or one granted by the authorisation server; no call
  posts with a token of another origin, whatever the order of the steps.
\<close>

theorem reach_json_request_token:
  assumes "reach s0 s"
      and "Json_Request u v \<in> set (sent (sh_world s))" and "Json_Request u v \<notin> set (sent (sh_world s0))"
  shows "\<exists>base t. u = base @ ''?access_token='' @ t \<and> t \<in> token_sources s0"
proof -
  from reach_sources_inv [OF assms(1)] obtain new where "sent (sh_world s) = sent (sh_world s0) @ new"
    and "\<forall>u v. Json_Request u v \<in> set new \<longrightarrow> carries_token (token_sources s0) u"
    unfolding sources_inv_def by blast
  with assms(2,3) have "carries_token (token_sources s0) u" by auto
  then show ?thesis unfolding carries_token_def .
qed


lemma fetch_step:
  assumes "i < length (calls s)" and "calls s ! i = C_Fetch u v"
  obtains t where "conc_step s t"
    and "sent (sh_world t) = sent (sh_world s) @ [Token_Request (app_key (sh_tok s)) (app_secret (sh_tok s))]"
    and "\<exists>c. calls t = (calls s)[i := c]"
proof -
  obtain r tk' w' where f: "fetch_token (sh_tok s) (sh_world s) = (r, tk', w')"
    by (cases "fetch_token (sh_tok s) (sh_world s)") auto
  note sn = fetch_token_frame(6) [OF f]
  show ?thesis
  proof (cases r)
    case (Inl m)
    with f have "conc_step s (s\<lparr>sh_world := w', calls := (calls s)[i := C_Done]\<rparr>)"
      using assms by (blast intro: fetch_failed)
    then show ?thesis by (rule that) (auto simp: sn)
  next
    case (Inr x)
    with f have "conc_step s (s\<lparr>sh_tok := tk', sh_world := w', calls := (calls s)[i := C_Post u v]\<rparr>)"
      using assms by (blast intro: fetched)
    then show ?thesis by (rule that) (auto simp: sn)
  qed
qed

text \<open>
  C16: The refresh is not serialised: when neither the body's token nor the
  stored one is valid, two concurrent calls can both decide to refresh before
  either has stored its token, and two token requests are sent, where a
  sequential pair of calls sends one (C5).  The bound of C14 is reached.
\<close>

theorem double_refresh_race:
  assumes "\<not> cur_valid s0" and "\<not> stored_valid (sh_world s0)"
      and "calls s0 = [C_Start u v, C_Start u' v']"
  shows "\<exists>s. reach s0 s \<and> token_requests (sent (sh_world s)) = token_requests (sent (sh_world s0)) + 2"
proof -
  let ?s1 = "s0\<lparr>calls := [C_Fetch u v, C_Start u' v']\<rparr>"
  let ?s2 = "s0\<lparr>calls := [C_Fetch u v, C_Fetch u' v']\<rparr>"
  have "conc_step s0 ?s1" using need_fetch [of 0 s0 u v] assms by simp
  moreover have "conc_step ?s1 ?s2"
    using need_fetch [of 1 ?s1 u' v'] assms by (simp add: cur_valid_def)
  ultimately have r2: "reach s0 ?s2" by (blast intro: reach.intros)
  obtain s3 where c3: "conc_step ?s2 s3" and t3: "sent (sh_world s3) = sent (sh_world s0) @
      [Token_Request (app_key (sh_tok s0)) (app_secret (sh_tok s0))]"
    and "\<exists>c. calls s3 = [c, C_Fetch u' v']"
    by (rule fetch_step [of 0 ?s2 u v]) auto
  then obtain c where l3: "calls s3 = [c, C_Fetch u' v']" by blast
  obtain s4 where c4: "conc_step s3 s4" and t4: "sent (sh_world s4) = sent (sh_world s3) @
      [Token_Request (app_key (sh_tok s3)) (app_secret (sh_tok s3))]"
    by (rule fetch_step [of 1 s3 u' v']) (simp_all add: l3)
  from r2 c3 c4 have "reach s0 s4" by (blast intro: reach.intros)
  moreover have "token_requests (sent (sh_world s4)) = token_requests (sent (sh_world s0)) + 2"
    by (simp add: t3 t4 token_requests_def)
  ultimately show ?thesis by blast
qed

end
