(* ===== verification/Session.thy ===== *)
theory Session
  imports Body
begin

text \<open>
  A program that uses one \<open>Body\<close> for a sequence of \<open>PostJson\<close> calls, one
  after another, while time passes between them.  A session is a list of
  events: a call of \<open>PostJson\<close> on an endpoint with a request body, decoding
  into the caller's zero \<open>Reply\<close>, or the clock advancing by some seconds.
  The body's token state and the world are threaded through the calls as the
  pointer \<open>b.Token\<close> and the environment carry them from one call to the
  next.  The result is the list of the calls' errors, the final body and the
  final world.
\<close>

datatype event = Call string bytes | Tick nat

definition tick :: "nat \<Rightarrow> world \<Rightarrow> world" where
  "tick d w = w\<lparr>clock := clock w + int d\<rparr>"

fun session :: "body \<Rightarrow> reply \<Rightarrow> world \<Rightarrow> event list \<Rightarrow> (error + unit) list \<times> body \<times> world" where
  "session b res w [] = ([], b, w)"
| "session b res w (Call url v # es) =
     (case post_json b url v res w of
        (r, b', res', w') \<Rightarrow> (case session b' res w' es of (rs, b'', w'') \<Rightarrow> (r # rs, b'', w'')))"
| "session b res w (Tick d # es) = session b res (tick d w) es"

fun ticks :: "event list \<Rightarrow> nat" where
  "ticks [] = 0"
| "ticks (Call _ _ # es) = ticks es"
| "ticks (Tick d # es) = (if d = 0 then ticks es else Suc (ticks es))"

text \<open>
  A token endpoint that always grants a non-empty token with a positive
  lifetime.
\<close>

definition auth_grants :: "world \<Rightarrow> bool" where
  "auth_grants w \<longleftrightarrow> (\<forall>h. \<exists>t ttl. auth w h = Inr (t, ttl) \<and> t \<noteq> [] \<and> 0 < ttl)"

text \<open>
  Whether the body must refresh at the current time: 1 when its token is not
  valid, 0 when it is.
\<close>

definition stale :: "body \<Rightarrow> world \<Rightarrow> nat" where
  "stale b w = (if token_valid (clock w) (token (tok b)) (expires_at (tok b)) then 0 else 1)"

subsection \<open>One call\<close>

lemma auth_grants_sound:
  assumes "auth_grants w"
  shows "auth_sound w"
  unfolding auth_sound_def
proof (intro allI impI)
  fix h t ttl
  assume a: "auth w h = Inr (t, ttl)"
  from assms obtain t' ttl' where "auth w h = Inr (t', ttl')" "t' \<noteq> []" "0 < ttl'"
    unfolding auth_grants_def by blast
  with a show "t \<noteq> [] \<and> 0 < ttl" by simp
qed

lemma auth_grants_set_access_token:
  assumes "auth_grants w"
  shows "\<exists>tk' w'. set_access_token tk w = (Inr (), tk', w')"
proof -
  from assms obtain t ttl where "auth w (sent w) = Inr (t, ttl)"
    unfolding auth_grants_def by blast
  then show ?thesis
    by (auto simp: set_access_token_def fetch_token_def Let_def split: option.splits)
qed

lemma post_json_after_token:
  assumes "post_json b url v res w = (r, b', res', w')"
      and "set_access_token (tok b) w = (Inr u, tk1, w1)"
  shows "tok b' = tk1 \<and> w' = w1\<lparr>sent := sent w1 @ [Json_Request (json_url url tk1) v]\<rparr>"
  using post_json_cases [OF assms(1)] assms(2) by (auto simp: Let_def)

text \<open>
  Under an endpoint that always grants, one call leaves the clock and the
  endpoint alone, ends with a valid token, and sends a token request only if
  it started without a valid token.
\<close>

lemma post_json_potential:
  assumes "post_json b url v res w = (r, b', res', w')" and "auth_grants w"
  shows "clock w' = clock w \<and> auth w' = auth w \<and> stale b' w' = 0
    \<and> token_requests (sent w') \<le> token_requests (sent w) + stale b w"
proof -
  obtain tk1 w1 where st: "set_access_token (tok b) w = (Inr (), tk1, w1)"
    using auth_grants_set_access_token [OF assms(2)] by blast
  note fr = set_access_token_frame [OF st]
  have after: "tok b' = tk1 \<and> w' = w1\<lparr>sent := sent w1 @ [Json_Request (json_url url tk1) v]\<rparr>"
    by (rule post_json_after_token [OF assms(1) st])
  have "token_valid (clock w1) (token tk1) (expires_at tk1)"
    by (rule set_access_token_valid [OF st auth_grants_sound [OF assms(2)]])
  moreover have "token_requests (sent w1) \<le> token_requests (sent w) + stale b w"
    using set_access_token_sent_iff [OF st] by (auto simp: stale_def)
  ultimately show ?thesis using fr after by (simp add: stale_def)
qed

lemma auth_grants_tick [simp]: "auth_grants (tick d w) = auth_grants w"
  by (simp add: auth_grants_def tick_def)

lemma stale_tick: "stale b (tick d w) \<le> stale b w + (if d = 0 then 0 else 1)"
  by (simp add: stale_def tick_def)

lemma auth_grants_frame: "auth w' = auth w \<Longrightarrow> auth_grants w' = auth_grants w"
  by (simp add: auth_grants_def)

subsection \<open>A sequence of calls\<close>

text \<open>
  C18: In a session of sequential PostJson calls against a token endpoint
  that always grants a non-empty token with a positive lifetime, the token
  requests sent, plus one if the body ends without a valid token, never exceed
  those at the start, plus one if it started without a valid token, plus the
  number of times the clock moved.  So calls with no time passing between
  them share one token: n calls send at most one token request, and none when
  the body starts with a valid token.
\<close>

theorem session_token_requests:
  assumes "auth_grants w" and "session b res w es = (rs, b', w')"
  shows "token_requests (sent w') + stale b' w' \<le> token_requests (sent w) + stale b w + ticks es"
  using assms
proof (induction b res w es arbitrary: rs b' w' rule: session.induct)
  case (1 b res w)
  then show ?case by simp
next
  case (2 b res w url v es)
  obtain r b1 res1 w1 where pj: "post_json b url v res w = (r, b1, res1, w1)"
    by (cases "post_json b url v res w") auto
  obtain rs1 where se: "session b1 res w1 es = (rs1, b', w')"
    using "2.prems"(2) pj by (auto split: prod.splits)
  note pot = post_json_potential [OF pj "2.prems"(1)]
  have "auth_grants w1" using pot "2.prems"(1) auth_grants_frame by blast
  with "2.IH" [OF pj [symmetric] refl refl this se] pot show ?case by simp
next
  case (3 b res w d es)
  have "token_requests (sent w') + stale b' w'
          \<le> token_requests (sent (tick d w)) + stale b (tick d w) + ticks es"
    using "3.IH" "3.prems" by simp
  with stale_tick [of b d w] show ?case by (simp add: tick_def split: if_splits)
qed

end
