(* ===== verification/Spec2Isabelle.thy ===== *)
theory Spec2Isabelle
  imports Concurrency Session
begin

text \<open>
  \<^bold>\<open>Verification of comeonjy/go-baiduai, package body.\<close>

  \<^emph>\<open>The program.\<close>  src/body/body.go is a thin client for the Baidu AI HTTP
  API.  A \<open>Body\<close> holds a pointer to a token manager (\<open>lib.AccessToken\<close>).
  \<open>PostJson\<close> makes sure a token is there (\<open>SetAccessToken\<close>), POSTs the
  JSON body to \<open>url?access_token=TOKEN\<close>, reads the response body, decodes it
  with \<open>json.Unmarshal\<close> into the caller's \<open>*Reply\<close> (a \<open>BaseReply\<close>
  envelope \<open>error_code\<close>, \<open>log_id\<close>, \<open>error_msg\<close> with an embedded
  \<open>interface{}\<close>), and turns a non-zero \<open>error_code\<close> into the error
  \<open>"%d:%s"\<close>.  \<open>PostForm\<close> adds the token to the caller's \<open>url.Values\<close>,
  posts them form-encoded and decodes into any target, without looking at an
  error code.  \<open>checkErr\<close> is the envelope check as a separate function.

  \<^emph>\<open>The theories.\<close>
  \<^item> \<open>Prelude\<close>: \<open>int64\<close> as \<open>64 word\<close>, bytes as \<open>string\<close>, the
    \<open>wire_simps\<close> collection of evaluation rules, shared lemmas.
  \<^item> \<open>Decimal\<close>: \<open>strconv.ParseInt(s, 10, 64)\<close> (\<open>parse_int64\<close>) and the
    \<open>%d\<close> verb (\<open>format_int64\<close>), with their round trip.
  \<^item> \<open>Json\<close>: the syntax \<open>encoding/json\<close> accepts: a byte-level lexer state
    machine (\<open>lex_step\<close>, following Go's scanner states), \<open>unquote\<close>
    (escapes, surrogate pairs, UTF-8 repair), and a stack machine over tokens
    (\<open>parse_step\<close>) with Go's nesting limit of 10000; \<open>parse_json\<close>.
  \<^item> \<open>Decode\<close>: \<open>BaseReply\<close> and \<open>Reply\<close> as records (the embedding is a
    record extension), and \<open>json.Unmarshal\<close> into \<open>*Reply\<close>: field lookup
    by exact then ASCII-folded name, \<open>null\<close> as no-op, type errors that keep
    the first error and go on (\<open>decode_reply\<close>, \<open>unmarshal\<close>).
  \<^item> \<open>Form\<close>: \<open>url.Values\<close> as a key-sorted association list,
    \<open>values_add\<close> (\<open>Add\<close>), \<open>query_escape\<close>, \<open>values_encode\<close>
    (\<open>Encode\<close>), and the reading side \<open>query_unescape\<close> and
    \<open>parse_query\<close> (\<open>url.ParseQuery\<close>), with the round trip of the two.
  \<^item> \<open>Net\<close>: the world: clock, token storage, token endpoint, API server, and
    the log of requests sent; \<open>http_send\<close>.
  \<^item> \<open>Token\<close>: \<open>lib.AccessToken\<close> (not among the sources, modelled from
    the specification): \<open>new_token\<close>, \<open>set_access_token\<close>,
    \<open>fetch_token\<close>.
  \<^item> \<open>Body\<close>: src/body/body.go itself: \<open>body\<close> (\<open>Body\<close>), \<open>new\<close>
    (\<open>New\<close>), \<open>post_json\<close> (\<open>PostJson\<close>), \<open>post_form\<close>
    (\<open>PostForm\<close>), \<open>check_err\<close> (\<open>checkErr\<close>), with \<open>json_url\<close>
    and \<open>sprintf_code_msg\<close> for the URL and the message they build.  A call
    threads the token state, the out parameter, the caller's \<open>url.Values\<close>
    for \<open>PostForm\<close>, and the world; Go's \<open>error\<close> is \<open>error + unit\<close>.
  \<^item> \<open>Concurrency\<close>: several \<open>PostJson\<close> calls sharing \<open>b.Token\<close>
    with no lock, as the \<open>inductive\<close> step relation \<open>conc_step\<close> over
    \<open>shared\<close> (the shared token, the world, one program counter
    \<open>call_pc\<close> per call).  One step is one atomic action of one call:
    keep the held token, adopt the stored one, decide to refresh, receive the
    refresh (or its failure), or build the URL of line 47 from the token held
    at that moment and post.  \<open>reach\<close> is reachability from a start state.
  \<^item> \<open>Session\<close>: a program's sequence of \<open>PostJson\<close> calls on one body,
    with the clock advancing between them (\<open>event\<close>, \<open>session\<close>); the
    token state and the world pass from one call to the next.

  \<^emph>\<open>What is proved.\<close>  \<open>PostJson\<close> succeeds exactly when the token is
  there, a body arrives, decodes, and has code 0 (C1); it reports the API
  error exactly for a decoded non-zero code, with a message that gives back
  code and text (C2, C6); malformed JSON is a syntax error that leaves the
  reply alone (C3); a token error posts nothing, and otherwise one token
  request at most precedes exactly one JSON request with the token in its URL
  (C4); a token obtained once is reused (C5).  \<open>PostForm\<close> never reports
  the envelope's error code (C7), adds the token to the caller's values and
  sends them encoded (C8).  The decoder reads back every printed
  \<open>int64\<close> code (C9) and refuses codes out of range (C10); a reused reply
  reports a stale code (C11); reused form values accumulate tokens (C12).
  \<open>PostJson\<close>'s inline envelope check agrees with \<open>checkErr\<close> wherever
  it is reached (C13).  In every interleaving of concurrent calls, token
  requests plus calls still able to refresh never grow, so n calls send at
  most n token requests (C14), and every posted URL carries a token held,
  stored or granted (C15), both by rule induction over \<open>reach\<close>; two
  calls that start without a valid token can both refresh, so the bound is
  reached where sequential calls send one request (C16).  A call sends a
  token request exactly when neither the held nor the stored token is valid
  (C17); over a session of sequential calls, token requests are bounded by
  one per advance of the clock, plus one for a body that starts without a
  valid token (C18).  The JSON keys that set a field of \<open>Reply\<close> are
  exactly its tags and \<open>Interface\<close>, compared without ASCII case, so the
  endpoint payload is dropped and \<open>ERROR_CODE\<close> counts as
  \<open>error_code\<close> (C19).  \<open>Form\<close> also proves that the encoded form parses
  back through \<open>url.ParseQuery\<close> to the values it encodes.

  \<^emph>\<open>Bounds.\<close>  No fuel is used: the lexer, the parser and the decoder are
  structurally recursive over the input, and \<open>unquote\<close> and \<open>show_nat\<close>
  terminate by measures found by the function package.  The only bound is Go's
  nesting limit \<open>max_depth\<close> = 10000 of open arrays and objects.

  \<^emph>\<open>Not modelled.\<close>  The HTTP status code and headers (Go does not turn a
  non-2xx status into an error, so the body is decoded whatever it is); the
  \<open>float64\<close> conversion of numbers stored into the empty interface (kept as
  their literal text, so the float range error of \<open>convertNumber\<close> is
  absent); Unicode case folding beyond ASCII in field names (Go also folds
  the Kelvin sign and the long s); an \<open>Interface\<close> field preset by the
  caller to a pointer; in the concurrent model, the decoding after the post
  (it touches only the call's own reply); the error texts and stack traces of the wrapped errors.
  The token manager is modelled from the specification, not from its code.

  \<^emph>\<open>Plan.\<close>  Modelled first, in this order: the dispatcher and its envelope
  (\<open>Body\<close>, \<open>Decode\<close>), the decoder's syntax (\<open>Json\<close>), the integer
  conversions (\<open>Decimal\<close>), the form values (\<open>Form\<close>) and the token
  manager (\<open>Token\<close>), then concurrent calls on one token
  (\<open>Concurrency\<close>) and sequential sessions over time (\<open>Session\<close>).  Still to come: (1) a JSON
  encoder and the round trip \<open>parse_json (encode v) = Some v\<close>, and the
  totality of \<open>unquote\<close> on every string the lexer accepts (Go's
  decoder-out-of-sync panic is unreachable); (2) the nesting bound as a
  theorem.
\<close>

section \<open>Concrete worlds\<close>

text \<open>
  A token endpoint that always grants \<open>24.a1b2\<close> for 30 days, an API server
  that answers every request with one fixed body, the empty reply, the OCR
  endpoint of the Baidu API, the two example responses of the
  specification, and a token endpoint that refuses the credentials.
\<close>


definition demo_auth :: "request list \<Rightarrow> string + string \<times> int" where
  "demo_auth h = Inr (''24.a1b2'', 2592000)"

definition demo_world :: "bytes \<Rightarrow> world" where
  "demo_world resp =
     \<lparr>clock = 0, stored = None, auth = demo_auth, server = (\<lambda>h r. Http_Body resp), sent = []\<rparr>"

definition demo_reply :: reply where
  "demo_reply = \<lparr>error_code = 0, log_id = 0, error_msg = [], iface = None\<rparr>"

definition fresh_token :: access_token where
  "fresh_token = (new_token ''key'' ''secret'')\<lparr>token := ''24.a1b2'', expires_at := 2592000\<rparr>"

definition ocr_url :: string where
  "ocr_url = ''https://aip.baidubce.com/rest/2.0/ocr/v1/general_basic''"

definition quota_body :: bytes where
  "quota_body = ''{\"error_code\":17,\"error_msg\":\"quota exceeded\"}''"

definition ok_body :: bytes where
  "ok_body = ''{\"error_code\":0,\"log_id\":1,\"result\":\"ok\"}''"

definition quota_reply :: reply where
  "quota_reply = demo_reply\<lparr>error_code := 17, error_msg := ''quota exceeded''\<rparr>"

definition later_body :: bytes where
  "later_body = ''{\"log_id\":2,\"result\":\"ok\"}''"

definition image_form :: url_values where
  "image_form = [(''image'', [''aGVsbG8=''])]"

text \<open>A token endpoint that refuses the application's credentials.\<close>

definition denied_world :: world where
  "denied_world = (demo_world quota_body)\<lparr>auth := (\<lambda>h. Inl ''invalid_client'')\<rparr>"

text \<open>Two calls on a fresh body, one minute apart.\<close>

definition minute_session :: "event list" where
  "minute_session = [Call ocr_url ''{}'', Tick 60, Call ocr_url ''{}'']"

section \<open>Evaluation on the concrete worlds\<close>

text \<open>
  Start states of the concurrent model: two calls on a fresh body, and one
  call on a body that already holds a valid token.
\<close>

definition race_start :: shared where
  "race_start = \<lparr>sh_tok = new_token ''key'' ''secret'', sh_world = demo_world ok_body,
                  calls = [C_Start ocr_url ''{}'', C_Start ocr_url ''{}'']\<rparr>"

definition cached_start :: shared where
  "cached_start = \<lparr>sh_tok = fresh_token, sh_world = demo_world ok_body, calls = [C_Start ocr_url ''{}'']\<rparr>"

lemma demo_set_access_token:
  "set_access_token (tok (new ''key'' ''secret'')) (demo_world resp) =
     (Inr (), fresh_token,
      (demo_world resp)\<lparr>sent := [Token_Request ''key'' ''secret''], stored := Some (''24.a1b2'', 2592000)\<rparr>)"
  by (simp add: set_access_token_def fetch_token_def token_valid_def new_def new_token_def
                fresh_token_def demo_world_def demo_auth_def Let_def)

lemma fresh_token_token [simp]: "token fresh_token = ''24.a1b2''"
  by (simp add: fresh_token_def)

lemma demo_server_world: "server ((demo_world resp)\<lparr>sent := s, stored := st\<rparr>) h r = Http_Body resp"
  by (simp add: demo_world_def)

lemma unmarshal_quota:
  "unmarshal decode_reply quota_body demo_reply =
     (None, demo_reply\<lparr>error_code := 17, error_msg := ''quota exceeded''\<rparr>)"
  unfolding quota_body_def demo_reply_def by code_simp

lemma demo_reply_fields [simp]:
  "error_code demo_reply = 0" "log_id demo_reply = 0" "error_msg demo_reply = []" "iface demo_reply = None"
  by (simp_all add: demo_reply_def)

lemma demo_quota_call:
  "post_json (new ''key'' ''secret'') ocr_url ''{}'' demo_reply (demo_world quota_body) =
   (Inl (Api_Error ''17:quota exceeded''), (new ''key'' ''secret'')\<lparr>tok := fresh_token\<rparr>, quota_reply,
    (demo_world quota_body)\<lparr>sent := [Token_Request ''key'' ''secret'',
        Json_Request (json_url ocr_url fresh_token) ''{}''],
      stored := Some (''24.a1b2'', 2592000)\<rparr>)"
proof -
  have "sprintf_code_msg quota_reply = ''17:quota exceeded''"
    by (simp add: sprintf_code_msg_def quota_reply_def wire_simps show_nat.simps)
  then show ?thesis
    using post_json_on_body [OF demo_set_access_token demo_server_world]
    by (simp add: unmarshal_quota Let_def quota_reply_def)
qed

lemma demo_form_call:
  "post_form decode_reply (new ''key'' ''secret'') ocr_url v demo_reply (demo_world quota_body) =
   (Inr (), (new ''key'' ''secret'')\<lparr>tok := fresh_token\<rparr>, values_add ''access_token'' ''24.a1b2'' v,
    quota_reply,
    (demo_world quota_body)\<lparr>sent := [Token_Request ''key'' ''secret'',
        Form_Request ocr_url (values_encode (values_add ''access_token'' ''24.a1b2'' v))],
      stored := Some (''24.a1b2'', 2592000)\<rparr>)"
  using post_form_on_body [OF demo_set_access_token demo_server_world,
      where dec = decode_reply and res = demo_reply and url = ocr_url and v = v]
  by (simp add: unmarshal_quota Let_def quota_reply_def)

lemma demo_set_access_token_cached:
  "set_access_token fresh_token ((demo_world resp)\<lparr>sent := s, stored := st\<rparr>) =
     (Inr (), fresh_token, (demo_world resp)\<lparr>sent := s, stored := st\<rparr>)"
  by (rule set_access_token_cached) (simp add: token_valid_def demo_world_def fresh_token_def)

lemma unmarshal_quota_again: "unmarshal decode_reply quota_body quota_reply = (None, quota_reply)"
  unfolding quota_body_def quota_reply_def demo_reply_def by code_simp


section \<open>Properties that span components\<close>

text \<open>
  C5: After one PostJson call has got past SetAccessToken (the token endpoint being sound), a second PostJson call at the same clock sends no token request and keeps the token: its only request is its JSON call carrying the token the first call obtained.
\<close>

theorem two_calls_one_token_request:
  assumes "auth_sound w"
      and "post_json b url1 v1 res1 w = (r1, b1, res1', w1)" and "\<forall>e. r1 \<noteq> Inl (Token_Error e)"
      and "post_json b1 url2 v2 res2 w1 = (r2, b2, res2', w2)"
  shows "tok b2 = tok b1 \<and> sent w2 = sent w1 @ [Json_Request (json_url url2 (tok b1)) v2]"
proof -
  obtain u wt where tk: "set_access_token (tok b) w = (Inr u, tok b1, wt)" and cl: "clock w1 = clock wt"
    using post_json_token_kept [OF assms(2,3)] by blast
  have "token_valid (clock wt) (token (tok b1)) (expires_at (tok b1))"
    using set_access_token_valid [OF tk assms(1)] .
  with cl have "token_valid (clock w1) (token (tok b1)) (expires_at (tok b1))" by simp
  from post_json_cached_token [OF this assms(4)] show ?thesis .
qed

text \<open>
  C11: When the caller reuses a Reply whose error_code is non-zero and the new response decodes without error but has no error_code member (for example a plain success body), PostJson reports an API error with the stale code: the out parameter is not reset before decoding.
\<close>

theorem post_json_stale_error_code:
  assumes "set_access_token (tok b) w = (Inr u, tk1, w1)"
      and "server w1 (sent w1) (Json_Request (json_url url tk1) v) = Http_Body data"
      and "parse_json data = Some (JObj ms)"
      and "\<forall>m \<in> set ms. lookup_field (fst m) \<noteq> Some Fld_ErrorCode"
      and "fst (decode_members None res ms) = None"
      and "error_code res \<noteq> 0"
  shows "\<exists>b' res' w'. post_json b url v res w = (Inl (Api_Error (sprintf_code_msg res')), b', res', w')
           \<and> error_code res' = error_code res"
proof -
  obtain res' where d: "decode_members None res ms = (None, res')"
    using assms(5) by (cases "decode_members None res ms") auto
  have "error_code res' = error_code res"
    using decode_members_error_code_frame [OF assms(4), of None res] d by simp
  moreover have "unmarshal decode_reply data res = (None, res')"
    using assms(3) d by (simp add: unmarshal_def decode_reply_def)
  ultimately show ?thesis
    using post_json_on_body [OF assms(1,2)] assms(6) by (simp add: Let_def)
qed

text \<open>
  C12: When a caller passes the same url.Values to two PostForm calls that both obtain the token (Go maps are references, and Add mutates the caller's map), the second request carries access_token twice.
\<close>

theorem post_form_reused_values:
  assumes "values_wf v" and "map_of v ''access_token'' = None"
      and "post_form dec b url v res w = (r1, b1, v1, res1, w1)" and "\<forall>e. r1 \<noteq> Inl (Token_Error e)"
      and "post_form dec b1 url v1 res1 w1 = (r2, b2, v2, res2, w2)" and "\<forall>e. r2 \<noteq> Inl (Token_Error e)"
  shows "map_of v2 ''access_token'' = Some [token (tok b1), token (tok b2)]"
proof -
  have v1: "v1 = values_add ''access_token'' (token (tok b1)) v"
    using post_form_values [OF assms(3,4)] .
  have v2: "v2 = values_add ''access_token'' (token (tok b2)) v1"
    using post_form_values [OF assms(5,6)] .
  have wf1: "values_wf v1" using v1 values_add_wf [OF assms(1)] by simp
  have "map_of v1 ''access_token'' = Some [token (tok b1)]"
    using v1 map_of_values_add [OF assms(1)] assms(2) by simp
  then show ?thesis
    using v2 map_of_values_add [OF wf1] by simp
qed

section \<open>Witnesses\<close>

text \<open>
  Each property with hypotheses, applied on a concrete world where the
  hypotheses hold.
\<close>

theorem post_json_stale_error_code_witness:
  "\<exists>b' res' w'.
     post_json (new ''key'' ''secret'') ocr_url ''{}'' quota_reply (demo_world later_body) =
       (Inl (Api_Error (sprintf_code_msg res')), b', res', w') \<and> error_code res' = 17"
proof -
  have p: "parse_json later_body = Some (JObj [(''log_id'', JNum ''2''), (''result'', JStr ''ok'')])"
    unfolding later_body_def by code_simp
  have k: "\<forall>m \<in> set [(''log_id'', JNum ''2''), (''result'', JStr ''ok'')].
             lookup_field (fst m) \<noteq> Some Fld_ErrorCode"
    by (simp add: wire_simps)
  have d: "fst (decode_members None quota_reply [(''log_id'', JNum ''2''), (''result'', JStr ''ok'')]) = None"
    by (simp add: wire_simps quota_reply_def)
  have c: "error_code quota_reply \<noteq> 0" by (simp add: quota_reply_def)
  have "error_code quota_reply = 17" by (simp add: quota_reply_def)
  with post_json_stale_error_code [OF demo_set_access_token demo_server_world p k d c] show ?thesis
    by simp
qed

theorem two_calls_one_token_request_witness:
  "case post_json ((new ''key'' ''secret'')\<lparr>tok := fresh_token\<rparr>) ocr_url ''{}'' quota_reply
          ((demo_world quota_body)\<lparr>sent := [Token_Request ''key'' ''secret'',
              Json_Request (json_url ocr_url fresh_token) ''{}''],
            stored := Some (''24.a1b2'', 2592000)\<rparr>) of
     (r2, b2, res2', w2) \<Rightarrow>
       tok b2 = fresh_token \<and>
       sent w2 = [Token_Request ''key'' ''secret'', Json_Request (json_url ocr_url fresh_token) ''{}'',
                  Json_Request (json_url ocr_url fresh_token) ''{}'']"
proof -
  have a: "auth_sound (demo_world quota_body)"
    by (simp add: auth_sound_def demo_world_def demo_auth_def)
  have r1: "\<forall>e. Inl (Api_Error ''17:quota exceeded'') \<noteq> (Inl (Token_Error e) :: error + unit)" by simp
  obtain r2 b2 res2' w2 where c2:
    "post_json ((new ''key'' ''secret'')\<lparr>tok := fresh_token\<rparr>) ocr_url ''{}'' quota_reply
       ((demo_world quota_body)\<lparr>sent := [Token_Request ''key'' ''secret'',
           Json_Request (json_url ocr_url fresh_token) ''{}''],
         stored := Some (''24.a1b2'', 2592000)\<rparr>) = (r2, b2, res2', w2)"
    by (cases "post_json ((new ''key'' ''secret'')\<lparr>tok := fresh_token\<rparr>) ocr_url ''{}'' quota_reply
       ((demo_world quota_body)\<lparr>sent := [Token_Request ''key'' ''secret'',
           Json_Request (json_url ocr_url fresh_token) ''{}''],
         stored := Some (''24.a1b2'', 2592000)\<rparr>)") auto
  from two_calls_one_token_request [OF a demo_quota_call r1 c2] c2 show ?thesis by simp
qed


theorem post_json_syntax_error_witness:
  "parse_json ''{\"error_code\":'' = None \<and>
   post_json (new ''key'' ''secret'') ocr_url ''{}'' demo_reply (demo_world ''{\"error_code\":'') =
   (Inl (Decode_Error Syntax_Error), (new ''key'' ''secret'')\<lparr>tok := fresh_token\<rparr>, demo_reply,
    ((demo_world ''{\"error_code\":'')\<lparr>sent := [Token_Request ''key'' ''secret''],
        stored := Some (''24.a1b2'', 2592000)\<rparr>)
      \<lparr>sent := sent ((demo_world ''{\"error_code\":'')\<lparr>sent := [Token_Request ''key'' ''secret''],
          stored := Some (''24.a1b2'', 2592000)\<rparr>) @ [Json_Request (json_url ocr_url fresh_token) ''{}'']\<rparr>)"
proof -
  have p: "parse_json ''{\"error_code\":'' = None" by code_simp
  from p post_json_syntax_error [OF demo_set_access_token demo_server_world p] show ?thesis by blast
qed

theorem post_form_ignores_error_code_witness:
  "error_code quota_reply = 17 \<and>
   (\<exists>b' v' w'. post_form decode_reply (new ''key'' ''secret'') ocr_url image_form demo_reply
                 (demo_world quota_body) = (Inr (), b', v', quota_reply, w'))"
proof -
  have "unmarshal decode_reply quota_body demo_reply = (None, quota_reply)"
    by (simp add: unmarshal_quota quota_reply_def)
  with post_form_ignores_error_code [OF demo_set_access_token demo_server_world]
  show ?thesis by (simp add: quota_reply_def)
qed

theorem post_form_request_witness:
  "case post_form decode_reply (new ''key'' ''secret'') ocr_url image_form demo_reply (demo_world quota_body) of
     (r, b', v', res', w') \<Rightarrow>
       v' = values_add ''access_token'' (token (tok b')) image_form
       \<and> (\<exists>pre. sent w' = [] @ pre @ [Form_Request ocr_url (values_encode v')]
              \<and> pre \<in> {[], [Token_Request ''key'' ''secret'']})"
proof -
  have r: "\<forall>e. (Inr () :: error + unit) \<noteq> Inl (Token_Error e)" by simp
  have "sent (demo_world quota_body) = []" "app_key (tok (new ''key'' ''secret'')) = ''key''"
    "app_secret (tok (new ''key'' ''secret'')) = ''secret''"
    by (simp_all add: demo_world_def new_def new_token_def)
  with post_form_request [OF demo_form_call r] demo_form_call [of image_form] show ?thesis by simp
qed

theorem decode_error_code_out_of_range_witness:
  "\<not> int64_range (2 ^ 63) \<and>
   decode_reply (JObj [(''error_code'', JNum (show_int (2 ^ 63)))]) demo_reply =
     (Some (Type_Error (''number '' @ show_int (2 ^ 63))), demo_reply)"
proof -
  have r: "\<not> int64_range (2 ^ 63)" by (simp add: int64_range_def)
  from r decode_error_code_out_of_range [OF r] show ?thesis by blast
qed

theorem post_form_reused_values_witness:
  "case post_form decode_reply ((new ''key'' ''secret'')\<lparr>tok := fresh_token\<rparr>) ocr_url
          (values_add ''access_token'' ''24.a1b2'' image_form) quota_reply
          ((demo_world quota_body)\<lparr>sent := [Token_Request ''key'' ''secret'',
              Form_Request ocr_url (values_encode (values_add ''access_token'' ''24.a1b2'' image_form))],
            stored := Some (''24.a1b2'', 2592000)\<rparr>) of
     (r2, b2, v2, res2, w2) \<Rightarrow> map_of v2 ''access_token'' = Some [''24.a1b2'', ''24.a1b2'']"
proof -
  have wf: "values_wf image_form" by (simp add: values_wf_def image_form_def)
  have none: "map_of image_form ''access_token'' = None" by (simp add: image_form_def)
  have r1: "\<forall>e. (Inr () :: error + unit) \<noteq> Inl (Token_Error e)" by simp
  obtain r2 b2 v2 res2 w2 where c2:
    "post_form decode_reply ((new ''key'' ''secret'')\<lparr>tok := fresh_token\<rparr>) ocr_url
          (values_add ''access_token'' ''24.a1b2'' image_form) quota_reply
          ((demo_world quota_body)\<lparr>sent := [Token_Request ''key'' ''secret'',
              Form_Request ocr_url (values_encode (values_add ''access_token'' ''24.a1b2'' image_form))],
            stored := Some (''24.a1b2'', 2592000)\<rparr>) = (r2, b2, v2, res2, w2)"
    by (cases "post_form decode_reply ((new ''key'' ''secret'')\<lparr>tok := fresh_token\<rparr>) ocr_url
          (values_add ''access_token'' ''24.a1b2'' image_form) quota_reply
          ((demo_world quota_body)\<lparr>sent := [Token_Request ''key'' ''secret'',
              Form_Request ocr_url (values_encode (values_add ''access_token'' ''24.a1b2'' image_form))],
            stored := Some (''24.a1b2'', 2592000)\<rparr>)") auto
  have tk: "set_access_token (tok ((new ''key'' ''secret'')\<lparr>tok := fresh_token\<rparr>))
      ((demo_world quota_body)\<lparr>sent := [Token_Request ''key'' ''secret'',
          Form_Request ocr_url (values_encode (values_add ''access_token'' ''24.a1b2'' image_form))],
        stored := Some (''24.a1b2'', 2592000)\<rparr>) =
    (Inr (), fresh_token, (demo_world quota_body)\<lparr>sent := [Token_Request ''key'' ''secret'',
          Form_Request ocr_url (values_encode (values_add ''access_token'' ''24.a1b2'' image_form))],
        stored := Some (''24.a1b2'', 2592000)\<rparr>)"
    using demo_set_access_token_cached by simp
  have rb: "r2 = Inr () \<and> tok b2 = fresh_token"
    using c2 post_form_on_body [OF tk demo_server_world, where dec = decode_reply and res = quota_reply]
    by (auto simp add: unmarshal_quota_again Let_def)
  then have r2: "\<forall>e. r2 \<noteq> Inl (Token_Error e)" by simp
  have b1: "tok ((new ''key'' ''secret'')\<lparr>tok := fresh_token\<rparr>) = fresh_token" by simp
  from post_form_reused_values [OF wf none demo_form_call r1 c2 r2] c2 b1
  have "map_of v2 ''access_token'' = Some [''24.a1b2'', token (tok b2)]" by simp
  with rb show ?thesis using c2 by simp
qed

theorem post_json_check_err_witness:
  "check_err (base_reply.truncate quota_reply) None = Some (Api_Error ''17:quota exceeded'')"
  using post_json_check_err [OF demo_quota_call] by simp

theorem reach_token_budget_witness:
  "reach race_start (race_start\<lparr>calls := [C_Fetch ocr_url ''{}'', C_Start ocr_url ''{}'']\<rparr>) \<and>
   token_requests (sent (sh_world (race_start\<lparr>calls := [C_Fetch ocr_url ''{}'', C_Start ocr_url ''{}'']\<rparr>)))
     + pending_calls (calls (race_start\<lparr>calls := [C_Fetch ocr_url ''{}'', C_Start ocr_url ''{}'']\<rparr>))
   \<le> token_requests (sent (sh_world race_start)) + pending_calls (calls race_start)"
proof -
  have "conc_step race_start (race_start\<lparr>calls := [C_Fetch ocr_url ''{}'', C_Start ocr_url ''{}'']\<rparr>)"
    using need_fetch [of 0 race_start ocr_url "''{}''"]
    by (simp add: race_start_def cur_valid_def stored_valid_def token_valid_def new_token_def demo_world_def)
  then have r: "reach race_start (race_start\<lparr>calls := [C_Fetch ocr_url ''{}'', C_Start ocr_url ''{}'']\<rparr>)"
    by (blast intro: reach.intros)
  with reach_token_budget [OF r] show ?thesis by blast
qed

theorem reach_json_request_token_witness:
  "reach cached_start (cached_start\<lparr>sh_world := (demo_world ok_body)\<lparr>sent := [Json_Request (json_url ocr_url fresh_token) ''{}'']\<rparr>,
                                    calls := [C_Done]\<rparr>) \<and>
   Json_Request (json_url ocr_url fresh_token) ''{}'' \<in> set [Json_Request (json_url ocr_url fresh_token) ''{}''] \<and>
   Json_Request (json_url ocr_url fresh_token) ''{}'' \<notin> set (sent (sh_world cached_start)) \<and>
   (\<exists>base t. json_url ocr_url fresh_token = base @ ''?access_token='' @ t \<and> t \<in> token_sources cached_start)"
proof -
  let ?s1 = "cached_start\<lparr>calls := [C_Post ocr_url ''{}'']\<rparr>"
  let ?s2 = "cached_start\<lparr>sh_world := (demo_world ok_body)\<lparr>sent := [Json_Request (json_url ocr_url fresh_token) ''{}'']\<rparr>,
                          calls := [C_Done]\<rparr>"
  have "conc_step cached_start ?s1"
    using take_cached [of 0 cached_start ocr_url "''{}''"]
    by (simp add: cached_start_def cur_valid_def token_valid_def fresh_token_def demo_world_def)
  moreover have "conc_step ?s1 ?s2"
    using posted [of 0 ?s1 ocr_url "''{}''"] by (simp add: cached_start_def http_send_def demo_world_def)
  ultimately have r: "reach cached_start ?s2" by (blast intro: reach.intros)
  have "Json_Request (json_url ocr_url fresh_token) ''{}'' \<notin> set (sent (sh_world cached_start))"
    by (simp add: cached_start_def demo_world_def)
  with reach_json_request_token [OF r, of "json_url ocr_url fresh_token" "''{}''"] r show ?thesis by simp
qed

theorem double_refresh_race_witness:
  "\<not> cur_valid race_start \<and> \<not> stored_valid (sh_world race_start) \<and>
   calls race_start = [C_Start ocr_url ''{}'', C_Start ocr_url ''{}''] \<and>
   (\<exists>s. reach race_start s \<and> token_requests (sent (sh_world s)) = token_requests (sent (sh_world race_start)) + 2)"
proof -
  have a: "\<not> cur_valid race_start" "\<not> stored_valid (sh_world race_start)"
    "calls race_start = [C_Start ocr_url ''{}'', C_Start ocr_url ''{}'']"
    by (simp_all add: race_start_def cur_valid_def stored_valid_def token_valid_def new_token_def demo_world_def)
  with double_refresh_race [OF a] show ?thesis by blast
qed

theorem post_json_token_request_iff_witness:
  "\<not> token_valid (clock (demo_world quota_body)) (token (tok (new ''key'' ''secret'')))
       (expires_at (tok (new ''key'' ''secret''))) \<and>
   \<not> stored_valid (demo_world quota_body) \<and>
   (\<exists>rest. [Token_Request ''key'' ''secret'', Json_Request (json_url ocr_url fresh_token) ''{}''] =
      sent (demo_world quota_body) @ Token_Request ''key'' ''secret'' # rest)"
proof -
  have "\<not> token_valid (clock (demo_world quota_body)) (token (tok (new ''key'' ''secret'')))
          (expires_at (tok (new ''key'' ''secret''))) \<and> \<not> stored_valid (demo_world quota_body)"
    by (simp add: token_valid_def stored_valid_def new_def new_token_def demo_world_def)
  with post_json_token_request_iff [OF demo_quota_call] show ?thesis
    by (simp add: new_def new_token_def)
qed

theorem session_token_requests_witness:
  "auth_grants (demo_world ok_body) \<and>
   token_requests (sent (snd (snd (session (new ''key'' ''secret'') demo_reply (demo_world ok_body) minute_session))))
     + stale (fst (snd (session (new ''key'' ''secret'') demo_reply (demo_world ok_body) minute_session)))
             (snd (snd (session (new ''key'' ''secret'') demo_reply (demo_world ok_body) minute_session)))
   \<le> token_requests (sent (demo_world ok_body)) + stale (new ''key'' ''secret'') (demo_world ok_body)
     + ticks minute_session"
proof -
  have ag: "auth_grants (demo_world ok_body)"
    by (simp add: auth_grants_def demo_world_def demo_auth_def)
  obtain rs b' w' where se: "session (new ''key'' ''secret'') demo_reply (demo_world ok_body) minute_session = (rs, b', w')"
    by (cases "session (new ''key'' ''secret'') demo_reply (demo_world ok_body) minute_session") auto
  from ag session_token_requests [OF ag se] se show ?thesis by simp
qed

theorem post_json_requests_witness:
  "fst (post_json (new ''key'' ''secret'') ocr_url ''{}'' demo_reply denied_world) = Inl (Token_Error ''invalid_client'') \<and>
   sent (snd (snd (snd (post_json (new ''key'' ''secret'') ocr_url ''{}'' demo_reply denied_world))))
     = [Token_Request ''key'' ''secret'']"
proof -
  have c: "post_json (new ''key'' ''secret'') ocr_url ''{}'' demo_reply denied_world =
    (Inl (Token_Error ''invalid_client''), new ''key'' ''secret'', demo_reply,
     denied_world\<lparr>sent := [Token_Request ''key'' ''secret'']\<rparr>)"
    by (simp add: post_json_def set_access_token_def fetch_token_def token_valid_def new_def new_token_def
                  denied_world_def demo_world_def Let_def)
  have "sent denied_world = []" "app_key (tok (new ''key'' ''secret'')) = ''key''"
    "app_secret (tok (new ''key'' ''secret'')) = ''secret''"
    by (simp_all add: denied_world_def demo_world_def new_def new_token_def)
  with post_json_requests [OF c] c show ?thesis by simp
qed

end
